theory Spec2Isabelle
  imports Main
begin

section \<open>JavaScript values as the proxy sees them\<close>

text \<open>
  The proxy (\<^verbatim>\<open>mcp-proxy.js\<close>) handles whatever \<^verbatim>\<open>JSON.parse\<close> delivers, so the model
  keeps JSON untyped. \<^verbatim>\<open>undefined\<close> is \<open>None\<close> of \<open>json option\<close>. JSON numbers are
  modelled by integers (the error codes of JSON-RPC are integers).
\<close>

datatype json =
    JNull
  | JBool bool
  | JNum int
  | JStr string
  | JArr "json list"
  | JObj "(string \<times> json) list"

type_synonym jsval = "json option"

text \<open>Truthiness, as used by \<^verbatim>\<open>if (x)\<close>, \<^verbatim>\<open>x || y\<close> and \<^verbatim>\<open>!x\<close>.\<close>

fun truthy :: "jsval \<Rightarrow> bool" where
  "truthy None = False"
| "truthy (Some JNull) = False"
| "truthy (Some (JBool b)) = b"
| "truthy (Some (JNum n)) = (n \<noteq> 0)"
| "truthy (Some (JStr s)) = (s \<noteq> [])"
| "truthy (Some (JArr xs)) = True"
| "truthy (Some (JObj kvs)) = True"

text \<open>
  \<^verbatim>\<open>x.k\<close> for a value \<open>x\<close> that is neither \<^verbatim>\<open>null\<close> nor \<^verbatim>\<open>undefined\<close>, and a key \<open>k\<close>
  among the ones the proxy reads (\<^verbatim>\<open>result\<close>, \<^verbatim>\<open>error\<close>, \<^verbatim>\<open>sessionId\<close>, \<^verbatim>\<open>message\<close>,
  \<^verbatim>\<open>code\<close>, \<^verbatim>\<open>data\<close>): only objects have such a property.
\<close>

fun get_prop :: "json \<Rightarrow> string \<Rightarrow> jsval" where
  "get_prop (JObj kvs) k = map_of kvs k"
| "get_prop JNull k = None"
| "get_prop (JBool b) k = None"
| "get_prop (JNum n) k = None"
| "get_prop (JStr s) k = None"
| "get_prop (JArr xs) k = None"

text \<open>
  \<^verbatim>\<open>x?.k\<close>: \<^verbatim>\<open>undefined\<close> when \<open>x\<close> is \<^verbatim>\<open>undefined\<close> or \<^verbatim>\<open>null\<close> (the latter by
  \<open>get_prop JNull k = None\<close>).
\<close>

fun opt_prop :: "jsval \<Rightarrow> string \<Rightarrow> jsval" where
  "opt_prop None k = None"
| "opt_prop (Some v) k = get_prop v k"

text \<open>
  \<^verbatim>\<open>a === b\<close> between a value freshly taken from a parsed body or a header and the stored
  session id: primitives compare by value, arrays and objects by identity, and two
  separately parsed objects are never identical.
\<close>

fun strict_eq :: "json \<Rightarrow> json \<Rightarrow> bool" where
  "strict_eq JNull JNull = True"
| "strict_eq (JBool a) (JBool b) = (a = b)"
| "strict_eq (JNum a) (JNum b) = (a = b)"
| "strict_eq (JStr a) (JStr b) = (a = b)"
| "strict_eq a b = False"

subsection \<open>Strings\<close>

definition lower_char :: "char \<Rightarrow> char" where
  "lower_char c =
     (case map_of (zip ''ABCDEFGHIJKLMNOPQRSTUVWXYZ'' ''abcdefghijklmnopqrstuvwxyz'') c of
        Some d \<Rightarrow> d
      | None \<Rightarrow> c)"

text \<open>\<^verbatim>\<open>s.toLowerCase()\<close> on the ASCII letters; other bytes are left as they are.\<close>

definition toLowerCase :: "string \<Rightarrow> string" where
  "toLowerCase s = map lower_char s"

fun startsWith :: "string \<Rightarrow> string \<Rightarrow> bool" where
  "startsWith s [] = True"
| "startsWith [] (p # ps) = False"
| "startsWith (c # cs) (p # ps) = (c = p \<and> startsWith cs ps)"

text \<open>\<^verbatim>\<open>s.includes(p)\<close>.\<close>

fun includes_str :: "string \<Rightarrow> string \<Rightarrow> bool" where
  "includes_str [] p = (p = [])"
| "includes_str (c # cs) p = (startsWith (c # cs) p \<or> includes_str cs p)"

text \<open>\<^verbatim>\<open>s.split("\n")\<close>: never empty, the last element is the unterminated rest.\<close>

fun split_nl :: "string \<Rightarrow> string list" where
  "split_nl [] = ['''']"
| "split_nl (c # cs) =
     (if c = CHR ''\<newline>'' then [] # split_nl cs
      else (case split_nl cs of
              l # ls \<Rightarrow> (c # l) # ls
            | [] \<Rightarrow> [c # []]))"

definition is_space :: "char \<Rightarrow> bool" where
  "is_space c = (c \<in> set [CHR '' '', CHR 0x09, CHR ''\<newline>'', CHR 0x0B, CHR 0x0C, CHR 0x0D])"

text \<open>\<^verbatim>\<open>s.trim()\<close> on the ASCII white space.\<close>

definition trim :: "string \<Rightarrow> string" where
  "trim s = rev (dropWhile is_space (rev (dropWhile is_space s)))"

fun digits :: "nat \<Rightarrow> string" where
  "digits n =
     (if n < 10 then [''0123456789'' ! n]
      else digits (n div 10) @ [''0123456789'' ! (n mod 10)])"

declare digits.simps [simp del]

fun join_comma :: "string list \<Rightarrow> string" where
  "join_comma [] = []"
| "join_comma [s] = s"
| "join_comma (s # t # ss) = s @ '','' @ join_comma (t # ss)"

text \<open>\<^verbatim>\<open>String(v)\<close>, which is what a template literal and \<^verbatim>\<open>new Error(v)\<close> apply.\<close>

fun to_String :: "json \<Rightarrow> string" where
  "to_String JNull = ''null''"
| "to_String (JBool b) = (if b then ''true'' else ''false'')"
| "to_String (JNum n) = (if n < 0 then ''-'' @ digits (nat (- n)) else digits (nat n))"
| "to_String (JStr s) = s"
| "to_String (JArr xs) = join_comma (map (\<lambda>x. if x = JNull then [] else to_String x) xs)"
| "to_String (JObj kvs) = ''[object Object]''"

fun js_String :: "jsval \<Rightarrow> string" where
  "js_String None = ''undefined''"
| "js_String (Some v) = to_String v"

subsection \<open>Errors\<close>

text \<open>
  A thrown \<^verbatim>\<open>Error\<close> object with the fields the proxy sets and reads. A raise of the
  source is the \<open>Inl\<close> branch of a result \<open>jserror + 'a\<close>.
\<close>

record jserror =
  message :: string
  status :: "nat option"
  code :: jsval
  data :: jsval

definition mkError :: "string \<Rightarrow> jserror" where
  "mkError m = \<lparr>message = m, status = None, code = None, data = None\<rparr>"

text \<open>
  \<^verbatim>\<open>x.k\<close> where \<open>x\<close> may be \<^verbatim>\<open>null\<close>: the engine raises a TypeError (the text is V8's; no such text holds a word the classification looks for).
\<close>

fun member :: "json \<Rightarrow> string \<Rightarrow> jserror + jsval" where
  "member JNull k = Inl (mkError (''Cannot read properties of null (reading '' @ [CHR 0x27] @ k @ [CHR 0x27] @ '')''))"
| "member v k = Inr (get_prop v k)"

text \<open>\<^verbatim>\<open>(m || "").toLowerCase()\<close>: a truthy \<open>m\<close> that is no string has no such method.\<close>

fun lower_message :: "jsval \<Rightarrow> jserror + string" where
  "lower_message (Some (JStr s)) = Inr (toLowerCase s)"
| "lower_message m =
     (if truthy m then Inl (mkError ''(intermediate value).toLowerCase is not a function'')
      else Inr [])"

section \<open>The upstream and the process state\<close>

datatype rpc =
    Initialize
  | NotifyInitialized
  | Call string json

text \<open>
  An outbound POST: the headers that vary and the JSON-RPC body. The random request id
  and client-name suffix are left out, and so are the lines written to the console and to
  the debug log, which have no effect on what follows.
\<close>

record request =
  authorization :: "string option"
  mcp_session_id :: "json option"
  rpc :: rpc

record response =
  status_code :: nat
  hdr_session :: "string option"
  hdr_content_type :: "string option"
  chunks :: "string list"

datatype reply =
    NetFail string
  | Response response

text \<open>
  What the network does with one request: after \<open>latency\<close> ms the \<open>answer\<close> arrives. A
  response arrives whole; a connection that breaks while the body is read is not modelled.
\<close>

record exchange =
  latency :: nat
  answer :: reply

text \<open>
  The environment of the process: its configuration, the upstream server as a function
  of all requests sent so far (the last one is the request being answered), and the
  platform functions the proxy calls, each taken as it is:
  \<^item> \<open>JSON_parse\<close> is \<^verbatim>\<open>JSON.parse\<close>; \<open>Inl\<close> is the message of the SyntaxError.
  \<^item> \<open>header_check v\<close> is what \<^verbatim>\<open>fetch\<close> makes of a header value \<open>v\<close>: \<open>None\<close> when it
    accepts it, \<open>Some m\<close> when it rejects the call with a TypeError of message \<open>m\<close>
    before anything is sent.
  \<^item> \<open>fs_writeFile v f\<close> is the content of the cache file after
    \<^verbatim>\<open>fs.writeFile(path, v, "utf-8")\<close> when it was \<open>f\<close> before (\<open>None\<close>: no file): the
    written text when the call succeeds, whatever the failed call has left otherwise.
  \<^item> \<open>fs_unlink f\<close> is the content of the cache file after \<^verbatim>\<open>fs.unlink(path)\<close>.
\<close>

record env =
  UPSTREAM_AUTH :: string
  TIMEOUT_MS :: nat
  JSON_parse :: "string \<Rightarrow> string + json"
  upstream :: "request list \<Rightarrow> exchange"
  header_check :: "string \<Rightarrow> string option"
  fs_writeFile :: "json \<Rightarrow> string option \<Rightarrow> string option"
  fs_unlink :: "string option \<Rightarrow> string option"

text \<open>
  The module-level variables, the content of \<^verbatim>\<open>~/.mcp-session-cache\<close> (\<open>None\<close>: no
  file), and every HTTP exchange made so far, oldest first. A call of \<^verbatim>\<open>fetch\<close> that is
  rejected for its headers leaves no exchange.
\<close>

record state =
  upstreamInitialized :: bool
  upstreamSessionId :: json
  cache_file :: "string option"
  trace :: "(request \<times> exchange) list"

text \<open>Lines 45 to 61: the session id at start-up, from the environment or the cache file.\<close>

definition startup :: "string option \<Rightarrow> string option \<Rightarrow> state" where
  "startup MCP_SESSION_ID file =
     \<lparr>upstreamInitialized = False,
      upstreamSessionId =
        (let from_env = (case MCP_SESSION_ID of None \<Rightarrow> [] | Some s \<Rightarrow> s);
             from_file = (case file of None \<Rightarrow> [] | Some f \<Rightarrow> trim f)
         in if from_env \<noteq> [] then JStr from_env
            else if from_file \<noteq> [] then JStr from_file
            else JNull),
      cache_file = file,
      trace = []\<rparr>"

text \<open>
  Lines 63 to 72. What \<^verbatim>\<open>fs.writeFile\<close> throws is caught and logged, so the function
  never throws.
\<close>

definition saveSessionToCache :: "env \<Rightarrow> jsval \<Rightarrow> state \<Rightarrow> state" where
  "saveSessionToCache E sessionId st =
     (case sessionId of
        None \<Rightarrow> st
      | Some v \<Rightarrow>
          if \<not> truthy (Some v) \<or> strict_eq v (upstreamSessionId st) then st
          else st\<lparr>upstreamSessionId := v, cache_file := fs_writeFile E v (cache_file st)\<rparr>)"

text \<open>Lines 163 to 172.\<close>

definition clearSessionCache :: "env \<Rightarrow> state \<Rightarrow> state" where
  "clearSessionCache E st =
     st\<lparr>upstreamSessionId := JNull, upstreamInitialized := False,
        cache_file := fs_unlink E (cache_file st)\<rparr>"

text \<open>The headers both \<^verbatim>\<open>fetchMcp\<close> and the notification build (lines 75 to 80, 210 to 215).\<close>

definition mk_request :: "env \<Rightarrow> state \<Rightarrow> rpc \<Rightarrow> request" where
  "mk_request E st body =
     \<lparr>authorization = (if UPSTREAM_AUTH E \<noteq> [] then Some (UPSTREAM_AUTH E) else None),
      mcp_session_id =
        (if truthy (Some (upstreamSessionId st)) then Some (upstreamSessionId st) else None),
      rpc = body\<rparr>"

text \<open>
  The platform's \<^verbatim>\<open>fetch(url, {method, headers, body})\<close>. It first builds the request
  from the headers, in the order \<^verbatim>\<open>Authorization\<close>, \<^verbatim>\<open>Mcp-Session-Id\<close> (the two fixed
  headers before them are always accepted); a session id that is no string goes in as
  \<^verbatim>\<open>String(id)\<close>. A header value it does not accept rejects the call, and nothing is
  sent. The source passes no \<^verbatim>\<open>signal\<close>, so once the request is out the answer is awaited
  however long it takes; a network failure rejects.
\<close>

definition refusal :: "env \<Rightarrow> request \<Rightarrow> string option" where
  "refusal E rq =
     (case (case authorization rq of None \<Rightarrow> None | Some a \<Rightarrow> header_check E a) of
        Some m \<Rightarrow> Some m
      | None \<Rightarrow>
          (case mcp_session_id rq of
             None \<Rightarrow> None
           | Some v \<Rightarrow> header_check E (to_String v)))"

definition fetch :: "env \<Rightarrow> request \<Rightarrow> state \<Rightarrow> (jserror + response) \<times> state" where
  "fetch E rq st =
     (case refusal E rq of
        Some m \<Rightarrow> (Inl (mkError m), st)
      | None \<Rightarrow>
          (let x = upstream E (map fst (trace st) @ [rq]);
               st1 = st\<lparr>trace := trace st @ [(rq, x)]\<rparr>
           in case answer x of
                NetFail m \<Rightarrow> (Inl (mkError m), st1)
              | Response res \<Rightarrow> (Inr res, st1)))"

definition elapsed :: "state \<Rightarrow> nat" where
  "elapsed st = sum_list (map (\<lambda>p. latency (snd p)) (trace st))"

section \<open>fetchMcp\<close>

definition ok :: "response \<Rightarrow> bool" where
  "ok res = (200 \<le> status_code res \<and> status_code res \<le> 299)"

text \<open>Lines 108 to 119: the error thrown for a status outside 200 to 299.\<close>

definition http_error :: "env \<Rightarrow> response \<Rightarrow> jserror" where
  "http_error E res =
     (let text = concat (chunks res);
          errorData = (case JSON_parse E text of Inl m \<Rightarrow> None | Inr d \<Rightarrow> Some d);
          e = opt_prop errorData ''error'';
          em = opt_prop e ''message'';
          ec = opt_prop e ''code''
      in \<lparr>message =
            (if truthy em then js_String em
             else ''Upstream error '' @ digits (status_code res) @ '': '' @ text),
          status = Some (status_code res),
          code = ec,
          data = None\<rparr>)"

text \<open>
  Lines 136 to 150: one line of the event stream. \<open>Some d\<close> is \<^verbatim>\<open>return data\<close>; \<open>None\<close>
  goes on with the next line. The \<^verbatim>\<open>catch (e) { }\<close> turns a SyntaxError of
  \<^verbatim>\<open>JSON.parse\<close> and the TypeError of \<^verbatim>\<open>null.result\<close> into "next line".
\<close>

definition sse_record :: "env \<Rightarrow> string \<Rightarrow> state \<Rightarrow> json option \<times> state" where
  "sse_record E line st =
     (if startsWith line ''data: '' then
        (case JSON_parse E (trim (drop 6 line)) of
           Inl m \<Rightarrow> (None, st)
         | Inr dat \<Rightarrow>
             (case member dat ''result'' of
                Inl e \<Rightarrow> (None, st)
              | Inr r \<Rightarrow>
                  (let st1 = (if truthy (opt_prop r ''sessionId'')
                              then saveSessionToCache E (opt_prop r ''sessionId'') st
                              else st)
                   in if truthy r \<or> truthy (get_prop dat ''error'') then (Some dat, st1)
                      else (None, st1))))
      else (None, st))"

fun sse_lines :: "env \<Rightarrow> string list \<Rightarrow> state \<Rightarrow> json option \<times> state" where
  "sse_lines E [] st = (None, st)"
| "sse_lines E (l # ls) st =
     (case sse_record E l st of
        (Some d, st1) \<Rightarrow> (Some d, st1)
      | (None, st1) \<Rightarrow> sse_lines E ls st1)"

text \<open>
  Lines 127 to 153: the read loop over the chunks still to come; \<open>buffer\<close> is the
  unterminated rest of what was read.
\<close>

fun sse_loop :: "env \<Rightarrow> string \<Rightarrow> string list \<Rightarrow> state \<Rightarrow> (jserror + json) \<times> state" where
  "sse_loop E buffer [] st = (Inl (mkError ''Upstream SSE stream ended without a result''), st)"
| "sse_loop E buffer (chunk # rest) st =
     (let lines = split_nl (buffer @ chunk) in
      case sse_lines E (butlast lines) st of
        (Some d, st1) \<Rightarrow> (Inr d, st1)
      | (None, st1) \<Rightarrow> sse_loop E (last lines) rest st1)"

text \<open>Lines 155 to 159: the body as one JSON document.\<close>

definition read_json :: "env \<Rightarrow> response \<Rightarrow> state \<Rightarrow> (jserror + json) \<times> state" where
  "read_json E res st =
     (case JSON_parse E (concat (chunks res)) of
        Inl m \<Rightarrow> (Inl (mkError m), st)
      | Inr dat \<Rightarrow>
          (case member dat ''result'' of
             Inl e \<Rightarrow> (Inl e, st)
           | Inr r \<Rightarrow>
               (if truthy (opt_prop r ''sessionId'')
                then (Inr dat, saveSessionToCache E (opt_prop r ''sessionId'') st)
                else (Inr dat, st))))"

text \<open>Lines 99 to 106: the session id of the response header.\<close>

definition capture_header :: "env \<Rightarrow> response \<Rightarrow> state \<Rightarrow> state" where
  "capture_header E res st =
     (case hdr_session res of
        None \<Rightarrow> st
      | Some s \<Rightarrow> if s \<noteq> [] then saveSessionToCache E (Some (JStr s)) st else st)"

text \<open>Lines 108 to 160: what \<^verbatim>\<open>fetchMcp\<close> does with the response once the header is read.\<close>

definition read_response :: "env \<Rightarrow> response \<Rightarrow> state \<Rightarrow> (jserror + json) \<times> state" where
  "read_response E res st =
     (if \<not> ok res then (Inl (http_error E res), st)
      else if includes_str (case hdr_content_type res of None \<Rightarrow> [] | Some c \<Rightarrow> c) ''text/event-stream''
        then sse_loop E [] (chunks res) st
      else read_json E res st)"

definition fetchMcp :: "env \<Rightarrow> rpc \<Rightarrow> state \<Rightarrow> (jserror + json) \<times> state" where
  "fetchMcp E body st =
     (case fetch E (mk_request E st body) st of
        (Inl e, st1) \<Rightarrow> (Inl e, st1)
      | (Inr res, st1) \<Rightarrow> read_response E res (capture_header E res st1))"

section \<open>ensureUpstreamInitialized\<close>

text \<open>
  Lines 218 to 225 and 248 to 260: the \<^verbatim>\<open>notifications/initialized\<close> POST goes through
  the plain \<^verbatim>\<open>fetch\<close>; its response is not looked at.
\<close>

definition notify :: "env \<Rightarrow> state \<Rightarrow> (jserror + unit) \<times> state" where
  "notify E st =
     (case fetch E (mk_request E st NotifyInitialized) st of
        (Inl e, st1) \<Rightarrow> (Inl e, st1)
      | (Inr res, st1) \<Rightarrow> (Inr (), st1\<lparr>upstreamInitialized := True\<rparr>))"

text \<open>Lines 195 to 228: the \<^verbatim>\<open>try\<close> block.\<close>

definition ensure_try :: "env \<Rightarrow> state \<Rightarrow> (jserror + unit) \<times> state" where
  "ensure_try E st =
     (case fetchMcp E Initialize st of
        (Inl e, st1) \<Rightarrow> (Inl e, st1)
      | (Inr dat, st1) \<Rightarrow>
          (case member dat ''error'' of
             Inl e \<Rightarrow> (Inl e, st1)
           | Inr er \<Rightarrow>
               if truthy er then
                 (case lower_message (opt_prop er ''message'') of
                    Inl e \<Rightarrow> (Inl e, st1)
                  | Inr errMsg \<Rightarrow>
                      if includes_str errMsg ''already initialized''
                         \<or> includes_str errMsg ''already started''
                      then (Inr (), st1\<lparr>upstreamInitialized := True\<rparr>)
                      else (Inl (mkError (''Upstream Init error: ''
                                            @ js_String (opt_prop er ''message''))), st1))
               else notify E st1))"

text \<open>Line 239: which caught errors make the handshake retry.\<close>

definition init_isSessionError :: "jserror \<Rightarrow> bool" where
  "init_isSessionError err =
     (let errMsg = toLowerCase (message err) in
      includes_str errMsg ''not initialized'' \<or> includes_str errMsg ''session''
      \<or> status err = Some 401 \<or> status err = Some 406)"

text \<open>Lines 229 to 267: the \<^verbatim>\<open>catch\<close> block; what it throws leaves the function.\<close>

definition ensure_catch :: "env \<Rightarrow> jserror \<Rightarrow> state \<Rightarrow> (jserror + unit) \<times> state" where
  "ensure_catch E err st =
     (if includes_str (toLowerCase (message err)) ''already initialized''
      then (Inr (), st\<lparr>upstreamInitialized := True\<rparr>)
      else if init_isSessionError err then
        (case fetchMcp E Initialize (st\<lparr>upstreamSessionId := JNull, upstreamInitialized := False\<rparr>) of
           (Inl e, st1) \<Rightarrow> (Inl e, st1)
         | (Inr retryData, st1) \<Rightarrow>
             (case member retryData ''error'' of
                Inl e \<Rightarrow> (Inl e, st1)
              | Inr er \<Rightarrow>
                  if truthy er
                  then (Inl (mkError (''Upstream Init Retry error: ''
                                        @ js_String (opt_prop er ''message''))), st1)
                  else notify E st1))
      else (Inl err, st))"

definition ensureUpstreamInitialized :: "env \<Rightarrow> state \<Rightarrow> (jserror + unit) \<times> state" where
  "ensureUpstreamInitialized E st =
     (if upstreamInitialized st then (Inr (), st)
      else
        (case ensure_try E st of
           (Inl err, st1) \<Rightarrow> ensure_catch E err st1
         | (Inr u, st1) \<Rightarrow> (Inr u, st1)))"

section \<open>forwardToHttpMcp\<close>

text \<open>Lines 289 to 292: the test on an \<^verbatim>\<open>error\<close> member of a response body.\<close>

definition body_isSessionError :: "string \<Rightarrow> json \<Rightarrow> bool" where
  "body_isSessionError errMsg er =
     (includes_str errMsg ''not initialized'' \<or> includes_str errMsg ''session''
      \<or> includes_str errMsg ''expired'' \<or> get_prop er ''code'' = Some (JNum (- 32000)))"

text \<open>Lines 311 to 316: the test on a caught error.\<close>

definition caught_isSessionError :: "jserror \<Rightarrow> bool" where
  "caught_isSessionError err =
     (let errMsg = toLowerCase (message err) in
      includes_str errMsg ''not initialized'' \<or> includes_str errMsg ''session''
      \<or> includes_str errMsg ''expired''
      \<or> status err = Some 401 \<or> status err = Some 406)"

text \<open>Lines 301 to 304: the error built from the \<^verbatim>\<open>error\<close> member of a body.\<close>

definition upstream_error :: "json \<Rightarrow> jserror" where
  "upstream_error er =
     \<lparr>message =
        (if truthy (get_prop er ''message'') then js_String (get_prop er ''message'')
         else ''Unknown upstream error''),
      status = None,
      code = (if truthy (get_prop er ''code'') then get_prop er ''code'' else None),
      data = (if truthy (get_prop er ''data'') then get_prop er ''data'' else None)\<rparr>"

text \<open>
  Lines 270 to 328. The recursive call of line 298 stands inside the \<^verbatim>\<open>try\<close>, so what
  it throws reaches the \<^verbatim>\<open>catch\<close> of the calling invocation, as every other error of
  the block does; the recursive call of line 322 stands in the \<^verbatim>\<open>catch\<close> and its errors
  leave the function. \<^verbatim>\<open>clearSessionCache\<close> already sets the session id to \<^verbatim>\<open>null\<close>, so
  the assignment after it changes nothing.
\<close>

function forwardToHttpMcp ::
  "env \<Rightarrow> string \<Rightarrow> json \<Rightarrow> nat \<Rightarrow> state \<Rightarrow> (jserror + jsval) \<times> state" where
  "forwardToHttpMcp E method params retryCount st =
     (case ensureUpstreamInitialized E st of
        (Inl e, st1) \<Rightarrow> (Inl e, st1)
      | (Inr u, st1) \<Rightarrow>
          (case
             (case fetchMcp E (Call method params) st1 of
                (Inl e, st2) \<Rightarrow> (Inl e, st2)
              | (Inr dat, st2) \<Rightarrow>
                  (case member dat ''error'' of
                     Inl e \<Rightarrow> (Inl e, st2)
                   | Inr None \<Rightarrow> (Inr (get_prop dat ''result''), st2)
                   | Inr (Some er) \<Rightarrow>
                       if truthy (Some er) then
                         (case lower_message (get_prop er ''message'') of
                            Inl e \<Rightarrow> (Inl e, st2)
                          | Inr errMsg \<Rightarrow>
                              if retryCount < 1 \<and> body_isSessionError errMsg er
                              then forwardToHttpMcp E method params (retryCount + 1)
                                     ((clearSessionCache E st2)\<lparr>upstreamSessionId := JNull\<rparr>)
                              else (Inl (upstream_error er), st2))
                       else (Inr (get_prop dat ''result''), st2)))
           of
             (Inr v, st3) \<Rightarrow> (Inr v, st3)
           | (Inl err, st3) \<Rightarrow>
               if retryCount < 1 \<and> caught_isSessionError err
               then forwardToHttpMcp E method params (retryCount + 1)
                      ((clearSessionCache E st3)\<lparr>upstreamSessionId := JNull\<rparr>)
               else (Inl err, st3)))"
  by pat_completeness auto
termination
  by (relation "measure (\<lambda>(E, method, params, retryCount, st). 1 - retryCount)") auto

declare forwardToHttpMcp.simps [simp del]

text \<open>Calls of the client one after the other, each started when the one before is over.\<close>

fun run_calls :: "env \<Rightarrow> (string \<times> json) list \<Rightarrow> state \<Rightarrow> (jserror + jsval) list \<times> state" where
  "run_calls E [] st = ([], st)"
| "run_calls E ((method, params) # cs) st =
     (case forwardToHttpMcp E method params 0 st of
        (r, st1) \<Rightarrow> (case run_calls E cs st1 of (rs, st2) \<Rightarrow> (r # rs, st2)))"

section \<open>Measures on a run\<close>

text \<open>The session id a response body carries: \<^verbatim>\<open>data.result?.sessionId\<close>.\<close>

definition body_session :: "json \<Rightarrow> jsval" where
  "body_session d = opt_prop (get_prop d ''result'') ''sessionId''"

text \<open>
  The state after the body of a response has been read from state \<open>st\<close> with outcome
  \<open>r\<close>: only a returned document with a truthy \<^verbatim>\<open>result.sessionId\<close> changes it.
\<close>

definition after_body :: "env \<Rightarrow> (jserror + json) \<Rightarrow> state \<Rightarrow> state" where
  "after_body E r st =
     (case r of
        Inl e \<Rightarrow> st
      | Inr d \<Rightarrow> if truthy (body_session d)
                  then saveSessionToCache E (body_session d) st else st)"

text \<open>The requests sent so far, the \<^verbatim>\<open>initialize\<close> requests and the forwarded requests among them.\<close>

definition requests :: "state \<Rightarrow> request list" where
  "requests st = map fst (trace st)"

fun is_call :: "rpc \<Rightarrow> bool" where
  "is_call (Call method params) = True"
| "is_call Initialize = False"
| "is_call NotifyInitialized = False"

definition handshakes :: "state \<Rightarrow> nat" where
  "handshakes st = length (filter (\<lambda>rq. rpc rq = Initialize) (requests st))"

definition sends :: "state \<Rightarrow> nat" where
  "sends st = length (filter (\<lambda>rq. is_call (rpc rq)) (requests st))"

text \<open>The platform accepts the headers of the request, so that it goes out.\<close>

definition accepted :: "env \<Rightarrow> request \<Rightarrow> bool" where
  "accepted E rq = (refusal E rq = None)"

text \<open>
  Every forwarded request that goes out fails in the transport with an error that the
  \<^verbatim>\<open>catch\<close> of \<^verbatim>\<open>forwardToHttpMcp\<close> takes for a session error.
\<close>

definition sends_throw_session_errors :: "env \<Rightarrow> bool" where
  "sends_throw_session_errors E =
     (\<forall>method params st.
        case fetchMcp E (Call method params) st of
          (Inl e, st') \<Rightarrow> accepted E (mk_request E st (Call method params)) \<longrightarrow> caught_isSessionError e
        | (Inr d, st') \<Rightarrow> False)"

text \<open>The platform writes every string it is given to the cache file.\<close>

definition cache_writable :: "env \<Rightarrow> bool" where
  "cache_writable E = (\<forall>s f. fs_writeFile E (JStr s) f = Some s)"

section \<open>What a response holds\<close>

text \<open>
  The document a line of an event stream answers with, if any: the line has the marker,
  its payload parses to a document other than \<^verbatim>\<open>null\<close>, and the \<^verbatim>\<open>result\<close> or the
  \<^verbatim>\<open>error\<close> of the document is truthy.
\<close>

definition sse_answer :: "env \<Rightarrow> string \<Rightarrow> json option" where
  "sse_answer E line =
     (if startsWith line ''data: '' then
        (case JSON_parse E (trim (drop 6 line)) of
           Inl m \<Rightarrow> None
         | Inr dat \<Rightarrow>
             if dat \<noteq> JNull \<and> (truthy (get_prop dat ''result'') \<or> truthy (get_prop dat ''error''))
             then Some dat else None)
      else None)"

fun sse_first :: "env \<Rightarrow> string list \<Rightarrow> json option" where
  "sse_first E [] = None"
| "sse_first E (l # ls) = (case sse_answer E l of Some d \<Rightarrow> Some d | None \<Rightarrow> sse_first E ls)"

text \<open>The lines of a text that are closed by a line feed.\<close>

definition complete_lines :: "string \<Rightarrow> string list" where
  "complete_lines s = butlast (split_nl s)"

definition is_event_stream :: "response \<Rightarrow> bool" where
  "is_event_stream res =
     includes_str (case hdr_content_type res of None \<Rightarrow> [] | Some c \<Rightarrow> c) ''text/event-stream''"

text \<open>
  The envelope of a response, whatever the chunks its body comes in: for an event stream
  the first answer among the complete lines of the whole body, otherwise the document
  the whole body parses to, unless that is \<^verbatim>\<open>null\<close>.
\<close>

definition envelope :: "env \<Rightarrow> response \<Rightarrow> json option" where
  "envelope E res =
     (if is_event_stream res then sse_first E (complete_lines (concat (chunks res)))
      else
        (case JSON_parse E (concat (chunks res)) of
           Inl m \<Rightarrow> None
         | Inr d \<Rightarrow> if d = JNull then None else Some d))"

text \<open>
  An answer that is a success and leaves the session \<open>T\<close> as it is: a status from 200 to
  299, the session header absent or \<open>T\<close>, and a body, plain or event stream, whose
  envelope has no truthy \<^verbatim>\<open>error\<close> and no session id of its own.
\<close>

definition good_exchange :: "env \<Rightarrow> string \<Rightarrow> exchange \<Rightarrow> bool" where
  "good_exchange E T x =
     (case answer x of
        NetFail m \<Rightarrow> False
      | Response res \<Rightarrow>
          ok res \<and> (hdr_session res = None \<or> hdr_session res = Some T)
          \<and> (case envelope E res of
                None \<Rightarrow> False
              | Some d \<Rightarrow> \<not> truthy (get_prop d ''error'') \<and> \<not> truthy (body_session d)))"

fun assigns_session :: "string \<Rightarrow> exchange \<Rightarrow> bool" where
  "assigns_session T x =
     (case answer x of NetFail m \<Rightarrow> False | Response res \<Rightarrow> hdr_session res = Some T)"

fun delivered :: "exchange \<Rightarrow> bool" where
  "delivered x = (case answer x of NetFail m \<Rightarrow> False | Response res \<Rightarrow> True)"

text \<open>
  An upstream that works and keeps the session \<open>T\<close>: the handshake is answered well and
  names \<open>T\<close> in its header, the notification is answered at all, every forwarded request
  is answered well.
\<close>

definition well_behaved :: "env \<Rightarrow> string \<Rightarrow> bool" where
  "well_behaved E T =
     (\<forall>h. case rpc (last h) of
             Initialize \<Rightarrow> good_exchange E T (upstream E h) \<and> assigns_session T (upstream E h)
           | NotifyInitialized \<Rightarrow> delivered (upstream E h)
           | Call method params \<Rightarrow> good_exchange E T (upstream E h))"

text \<open>The request with body \<open>b\<close> that carries the session \<open>T\<close>.\<close>

definition request_with :: "env \<Rightarrow> string \<Rightarrow> rpc \<Rightarrow> request" where
  "request_with E T b =
     \<lparr>authorization = (if UPSTREAM_AUTH E \<noteq> [] then Some (UPSTREAM_AUTH E) else None),
      mcp_session_id = Some (JStr T),
      rpc = b\<rparr>"

fun succeeded :: "(jserror + jsval) \<Rightarrow> bool" where
  "succeeded (Inr v) = True"
| "succeeded (Inl e) = False"

text \<open>
  Lines 282 to 307 of \<^verbatim>\<open>forwardToHttpMcp\<close>: the \<^verbatim>\<open>try\<close> block on its own, with the retry
  of line 298 inside it.
\<close>

definition try_block :: "env \<Rightarrow> string \<Rightarrow> json \<Rightarrow> nat \<Rightarrow> state \<Rightarrow> (jserror + jsval) \<times> state" where
  "try_block E method params retryCount st1 =
     (case fetchMcp E (Call method params) st1 of
        (Inl e, st2) \<Rightarrow> (Inl e, st2)
      | (Inr dat, st2) \<Rightarrow>
          (case member dat ''error'' of
             Inl e \<Rightarrow> (Inl e, st2)
           | Inr None \<Rightarrow> (Inr (get_prop dat ''result''), st2)
           | Inr (Some er) \<Rightarrow>
               if truthy (Some er) then
                 (case lower_message (get_prop er ''message'') of
                    Inl e \<Rightarrow> (Inl e, st2)
                  | Inr errMsg \<Rightarrow>
                      if retryCount < 1 \<and> body_isSessionError errMsg er
                      then forwardToHttpMcp E method params (retryCount + 1)
                             ((clearSessionCache E st2)\<lparr>upstreamSessionId := JNull\<rparr>)
                      else (Inl (upstream_error er), st2))
               else (Inr (get_prop dat ''result''), st2)))"

section \<open>The classifier of the specification\<close>

text \<open>
  The rule of the specification's section 4.3, in its words, on the message, the HTTP
  status and the application error code of a failure: status 401 or 406, or a message
  containing (whatever the case) "session", "not initialized" or "expired", or the
  sentinel code -32000.
\<close>

definition spec_isSessionError :: "string \<Rightarrow> nat option \<Rightarrow> jsval \<Rightarrow> bool" where
  "spec_isSessionError msg http_status app_code =
     (http_status = Some 401 \<or> http_status = Some 406
      \<or> includes_str (toLowerCase msg) ''session''
      \<or> includes_str (toLowerCase msg) ''not initialized''
      \<or> includes_str (toLowerCase msg) ''expired''
      \<or> app_code = Some (JNum (- 32000)))"

section \<open>Calls that overlap\<close>

text \<open>
  An \<^verbatim>\<open>async\<close> function runs until it awaits a \<^verbatim>\<open>fetch\<close>; it goes on when the response
  is there, with the module-level variables as they are by then. A configuration is what
  such a run has reached: the end, with its outcome, or a request on its way together
  with the rest of the function, which takes the outcome of the \<^verbatim>\<open>fetch\<close> and the state
  at that moment. Both carry the state the run has left behind. Only the awaits of a
  \<^verbatim>\<open>fetch\<close> are points where another call can run; reading a body and writing the cache
  file are taken as one step with what follows.
\<close>

datatype conf =
    Finished "jserror + unit" state
  | Pending request state "(jserror + response) \<Rightarrow> state \<Rightarrow> conf"

fun conf_state :: "conf \<Rightarrow> state" where
  "conf_state (Finished r st) = st"
| "conf_state (Pending rq st k) = st"

text \<open>\<^verbatim>\<open>fetchMcp\<close> from line 94 on, once the \<^verbatim>\<open>fetch\<close> of line 88 has settled with \<open>out\<close>.\<close>

definition received :: "env \<Rightarrow> (jserror + response) \<Rightarrow> state \<Rightarrow> (jserror + json) \<times> state" where
  "received E out st =
     (case out of
        Inl e \<Rightarrow> (Inl e, st)
      | Inr res \<Rightarrow> read_response E res (capture_header E res st))"

text \<open>The \<^verbatim>\<open>catch\<close> block of \<^verbatim>\<open>ensureUpstreamInitialized\<close>, lines 229 to 267.\<close>

definition catch_conf :: "env \<Rightarrow> jserror \<Rightarrow> state \<Rightarrow> conf" where
  "catch_conf E err st =
     (if includes_str (toLowerCase (message err)) ''already initialized''
      then Finished (Inr ()) (st\<lparr>upstreamInitialized := True\<rparr>)
      else if init_isSessionError err then
        (let st0 = st\<lparr>upstreamSessionId := JNull, upstreamInitialized := False\<rparr> in
         Pending (mk_request E st0 Initialize) st0
           (\<lambda>out st1.
              case received E out st1 of
                (Inl e, st2) \<Rightarrow> Finished (Inl e) st2
              | (Inr retryData, st2) \<Rightarrow>
                  (case member retryData ''error'' of
                     Inl e \<Rightarrow> Finished (Inl e) st2
                   | Inr er \<Rightarrow>
                       if truthy er
                       then Finished (Inl (mkError (''Upstream Init Retry error: ''
                                                     @ js_String (opt_prop er ''message'')))) st2
                       else Pending (mk_request E st2 NotifyInitialized) st2
                              (\<lambda>out2 st3.
                                 case out2 of
                                   Inl e \<Rightarrow> Finished (Inl e) st3
                                 | Inr res \<Rightarrow>
                                     Finished (Inr ()) (st3\<lparr>upstreamInitialized := True\<rparr>)))))
      else Finished (Inl err) st)"

text \<open>\<^verbatim>\<open>ensureUpstreamInitialized\<close> from its first line, with the \<^verbatim>\<open>try\<close> block of lines 195 to 228.\<close>

definition ensure_conf :: "env \<Rightarrow> state \<Rightarrow> conf" where
  "ensure_conf E st =
     (if upstreamInitialized st then Finished (Inr ()) st
      else
        Pending (mk_request E st Initialize) st
          (\<lambda>out st1.
             case received E out st1 of
               (Inl e, st2) \<Rightarrow> catch_conf E e st2
             | (Inr dat, st2) \<Rightarrow>
                 (case member dat ''error'' of
                    Inl e \<Rightarrow> catch_conf E e st2
                  | Inr er \<Rightarrow>
                      if truthy er then
                        (case lower_message (opt_prop er ''message'') of
                           Inl e \<Rightarrow> catch_conf E e st2
                         | Inr errMsg \<Rightarrow>
                             if includes_str errMsg ''already initialized''
                                \<or> includes_str errMsg ''already started''
                             then Finished (Inr ()) (st2\<lparr>upstreamInitialized := True\<rparr>)
                             else catch_conf E
                                    (mkError (''Upstream Init error: ''
                                                @ js_String (opt_prop er ''message''))) st2)
                      else
                        Pending (mk_request E st2 NotifyInitialized) st2
                          (\<lambda>out2 st3.
                             case out2 of
                               Inl e \<Rightarrow> catch_conf E e st3
                             | Inr res \<Rightarrow>
                                 Finished (Inr ()) (st3\<lparr>upstreamInitialized := True\<rparr>)))))"

text \<open>One call alone: every request is answered before anything else happens.\<close>

primrec run_conf :: "env \<Rightarrow> conf \<Rightarrow> (jserror + unit) \<times> state" where
  "run_conf E (Finished r st) = (r, st)"
| "run_conf E (Pending rq st k) = (case fetch E rq st of (out, st1) \<Rightarrow> run_conf E (k out st1))"

text \<open>
  Several calls: the shared variables and, for every call started, what it has reached.
  The client starts a call (it runs up to its first await), or the response for the
  pending request of call \<open>i\<close> arrives (it runs on up to its next await).
\<close>

record pool =
  shared :: state
  calls :: "conf list"

datatype event = Start | Deliver nat

definition start_call :: "env \<Rightarrow> pool \<Rightarrow> pool" where
  "start_call E P =
     (let c = ensure_conf E (shared P) in \<lparr>shared = conf_state c, calls = calls P @ [c]\<rparr>)"

definition deliver :: "env \<Rightarrow> nat \<Rightarrow> pool \<Rightarrow> pool" where
  "deliver E i P =
     (if i < length (calls P) then
        (case calls P ! i of
           Finished r st \<Rightarrow> P
         | Pending rq st k \<Rightarrow>
             (case fetch E rq (shared P) of
                (out, st1) \<Rightarrow>
                  (let c = k out st1 in \<lparr>shared = conf_state c, calls = (calls P)[i := c]\<rparr>)))
      else P)"

fun run_events :: "env \<Rightarrow> event list \<Rightarrow> pool \<Rightarrow> pool" where
  "run_events E [] P = P"
| "run_events E (Start # evs) P = run_events E evs (start_call E P)"
| "run_events E (Deliver i # evs) P = run_events E evs (deliver E i P)"

text \<open>
  The requests on their way, and the \<^verbatim>\<open>initialize\<close> requests among them: those given
  to \<^verbatim>\<open>fetch\<close> whose outcome the call still awaits. What \<^verbatim>\<open>fetch\<close> makes of a request, the
  refusal of its headers included, is seen when the outcome is delivered.
\<close>

fun in_flight :: "conf list \<Rightarrow> request list" where
  "in_flight [] = []"
| "in_flight (Finished r st # cs) = in_flight cs"
| "in_flight (Pending rq st k # cs) = rq # in_flight cs"

definition handshakes_in_flight :: "pool \<Rightarrow> nat" where
  "handshakes_in_flight P = length (filter (\<lambda>rq. rpc rq = Initialize) (in_flight (calls P)))"

section \<open>Example upstreams\<close>

text \<open>
  JSON texts are written with \<open>q\<close> for a quoted name. \<open>parse_examples\<close> is
  \<^verbatim>\<open>JSON.parse\<close> on the documents the examples use; any other text is a SyntaxError.
\<close>

definition q :: "string \<Rightarrow> string" where
  "q s = CHR 0x22 # s @ [CHR 0x22]"

definition doc_result :: string where
  "doc_result = ''{'' @ q ''result'' @ '':{}}''"

definition doc_result_null :: string where
  "doc_result_null = ''{'' @ q ''result'' @ '':null}''"

definition doc_result_foo :: string where
  "doc_result_foo = ''{'' @ q ''jsonrpc'' @ '':'' @ q ''2.0'' @ '','' @ q ''id'' @ '':'' @ q ''1''
       @ '','' @ q ''result'' @ '':{'' @ q ''foo'' @ '':1}}''"

definition doc_session_B :: string where
  "doc_session_B = ''{'' @ q ''result'' @ '':{'' @ q ''sessionId'' @ '':'' @ q ''B'' @ ''}}''"

definition doc_session_5 :: string where
  "doc_session_5 = ''{'' @ q ''result'' @ '':{'' @ q ''sessionId'' @ '':5}}''"

definition doc_already :: string where
  "doc_already = ''{'' @ q ''error'' @ '':{'' @ q ''code'' @ '':-32600,'' @ q ''message''
       @ '':'' @ q ''Session already initialized'' @ ''}}''"

definition doc_expired :: string where
  "doc_expired = ''{'' @ q ''error'' @ '':{'' @ q ''code'' @ '':-32000,'' @ q ''message''
       @ '':'' @ q ''session expired'' @ ''}}''"

definition doc_not_found :: string where
  "doc_not_found = ''{'' @ q ''error'' @ '':{'' @ q ''code'' @ '':-32601,'' @ q ''message''
       @ '':'' @ q ''Method not found'' @ '','' @ q ''data'' @ '':'' @ q ''initialize'' @ ''}}''"

definition doc_bad_state :: string where
  "doc_bad_state = ''{'' @ q ''error'' @ '':{'' @ q ''code'' @ '':-32000,'' @ q ''message''
       @ '':'' @ q ''bad state'' @ ''}}''"

definition parse_examples :: "string \<Rightarrow> string + json" where
  "parse_examples s =
     (case map_of
        [(doc_result, JObj [(''result'', JObj [])]),
         (doc_result_null, JObj [(''result'', JNull)]),
         (doc_result_foo,
            JObj [(''jsonrpc'', JStr ''2.0''), (''id'', JStr ''1''),
                  (''result'', JObj [(''foo'', JNum 1)])]),
         (doc_session_B, JObj [(''result'', JObj [(''sessionId'', JStr ''B'')])]),
         (doc_already,
            JObj [(''error'', JObj [(''code'', JNum (- 32600)),
                                    (''message'', JStr ''Session already initialized'')])]),
         (doc_expired,
            JObj [(''error'', JObj [(''code'', JNum (- 32000)),
                                    (''message'', JStr ''session expired'')])]),
         (doc_bad_state,
            JObj [(''error'', JObj [(''code'', JNum (- 32000)),
                                    (''message'', JStr ''bad state'')])]),
         (doc_not_found,
            JObj [(''error'', JObj [(''code'', JNum (- 32601)),
                                    (''message'', JStr ''Method not found''),
                                    (''data'', JStr ''initialize'')])]),
         (doc_session_5, JObj [(''result'', JObj [(''sessionId'', JNum 5)])])] s of
        Some d \<Rightarrow> Inr d
      | None \<Rightarrow> Inl ''Unexpected token'')"

text \<open>A response with a JSON body in one chunk, and one with an event stream.\<close>

definition plain :: "nat \<Rightarrow> string option \<Rightarrow> string \<Rightarrow> exchange" where
  "plain st_code sid body =
     \<lparr>latency = 5,
      answer = Response \<lparr>status_code = st_code, hdr_session = sid,
                         hdr_content_type = Some ''application/json'', chunks = [body]\<rparr>\<rparr>"

definition stream :: "string list \<Rightarrow> exchange" where
  "stream cs =
     \<lparr>latency = 5,
      answer = Response \<lparr>status_code = 200, hdr_session = None,
                         hdr_content_type = Some ''text/event-stream'', chunks = cs\<rparr>\<rparr>"

text \<open>
  The platform of the examples. \<^verbatim>\<open>fetch\<close> strips tabs, spaces, line feeds and carriage
  returns from both ends of a header value and refuses it when a NUL, a line feed or a
  carriage return is left (the message is undici's). \<^verbatim>\<open>fs.writeFile\<close> writes a string and
  refuses a number, a boolean, \<^verbatim>\<open>null\<close> and an object before it opens the file; given an
  array it opens the file, which empties it, and writes the strings the array starts
  with (a chunk that is no string ends the writing here; no example has one).
  \<^verbatim>\<open>fs.unlink\<close> removes the file.
\<close>

definition is_http_space :: "char \<Rightarrow> bool" where
  "is_http_space c = (c \<in> set [CHR 0x09, CHR ''\<newline>'', CHR 0x0D, CHR '' ''])"

definition node_header_check :: "string \<Rightarrow> string option" where
  "node_header_check v =
     (let n = rev (dropWhile is_http_space (rev (dropWhile is_http_space v))) in
      if CHR 0x00 \<in> set n \<or> CHR ''\<newline>'' \<in> set n \<or> CHR 0x0D \<in> set n
      then Some (''Headers.append: '' @ q n @ '' is an invalid header value.'')
      else None)"

fun leading_strings :: "json list \<Rightarrow> string" where
  "leading_strings (JStr s # xs) = s @ leading_strings xs"
| "leading_strings xs = []"

fun node_writeFile :: "json \<Rightarrow> string option \<Rightarrow> string option" where
  "node_writeFile (JStr s) f = Some s"
| "node_writeFile (JArr xs) f = Some (leading_strings xs)"
| "node_writeFile v f = f"

definition env_of :: "(request list \<Rightarrow> exchange) \<Rightarrow> env" where
  "env_of u = \<lparr>UPSTREAM_AUTH = [], TIMEOUT_MS = 15000, JSON_parse = parse_examples,
               upstream = u, header_check = node_header_check,
               fs_writeFile = node_writeFile, fs_unlink = (\<lambda>f. None)\<rparr>"

text \<open>
  The first \<^verbatim>\<open>initialize\<close> is answered "Session already initialized", every later request
  with HTTP 401.
\<close>

definition stale_upstream :: "request list \<Rightarrow> exchange" where
  "stale_upstream h =
     (if rpc (last h) = Initialize \<and> \<not> list_ex (\<lambda>rq. rpc rq = Initialize) (butlast h)
      then plain 200 None doc_already
      else plain 401 None ''Unauthorized'')"

text \<open>
  Every forwarded request is answered with HTTP 401; of the \<^verbatim>\<open>initialize\<close> requests the
  first, third, ... are answered with HTTP 401 and the others accepted.
\<close>

definition flaky_upstream :: "request list \<Rightarrow> exchange" where
  "flaky_upstream h =
     (case rpc (last h) of
        Call method params \<Rightarrow> plain 401 None ''Unauthorized''
      | NotifyInitialized \<Rightarrow> plain 202 None []
      | Initialize \<Rightarrow>
          if even (length (filter (\<lambda>rq. rpc rq = Initialize) (butlast h)))
          then plain 401 None ''Unauthorized''
          else plain 200 None doc_result)"

text \<open>Every handshake succeeds, every forwarded request is answered "session expired".\<close>

definition expiring_upstream :: "request list \<Rightarrow> exchange" where
  "expiring_upstream h =
     (case rpc (last h) of
        Call method params \<Rightarrow> plain 200 None doc_expired
      | NotifyInitialized \<Rightarrow> plain 202 None []
      | Initialize \<Rightarrow> plain 200 None doc_result)"

definition rpcs :: "state \<Rightarrow> rpc list" where
  "rpcs st = map rpc (requests st)"

text \<open>Every request is answered after 20 seconds.\<close>

definition slow_upstream :: "request list \<Rightarrow> exchange" where
  "slow_upstream h = (plain 200 None doc_result)\<lparr>latency := 20000\<rparr>"

text \<open>An event stream whose only record has the result \<^verbatim>\<open>null\<close>, and the same body as plain JSON.\<close>

definition null_stream_upstream :: "request list \<Rightarrow> exchange" where
  "null_stream_upstream h = stream [''data: '' @ doc_result_null @ [CHR ''\<newline>'', CHR ''\<newline>'']]"

definition null_plain_upstream :: "request list \<Rightarrow> exchange" where
  "null_plain_upstream h = plain 200 None doc_result_null"

text \<open>The stream of the specification's example: one record in two chunks.\<close>

definition split_stream_upstream :: "request list \<Rightarrow> exchange" where
  "split_stream_upstream h =
     stream [take 37 (''data: '' @ doc_result_foo),
             drop 37 (''data: '' @ doc_result_foo) @ [CHR ''\<newline>'', CHR ''\<newline>'']]"

definition ready :: "string \<Rightarrow> state" where
  "ready T = \<lparr>upstreamInitialized = True, upstreamSessionId = JStr T,
              cache_file = Some T, trace = []\<rparr>"


text \<open>The upstream fails every request with HTTP 500.\<close>

definition failing_upstream :: "request list \<Rightarrow> exchange" where
  "failing_upstream h = plain 500 None ''Internal Server Error''"

text \<open>Every request is accepted, and every response names the session \<open>T\<close>.\<close>

definition steady_upstream :: "request list \<Rightarrow> exchange" where
  "steady_upstream h = plain 200 (Some ''T'') doc_result"

text \<open>
  The handshake is accepted without a session id; the response to the notification
  names the session \<open>N\<close>.
\<close>

definition late_session_upstream :: "request list \<Rightarrow> exchange" where
  "late_session_upstream h =
     (case rpc (last h) of
        NotifyInitialized \<Rightarrow> plain 202 (Some ''N'') []
      | Initialize \<Rightarrow> plain 200 None doc_result
      | Call method params \<Rightarrow> plain 200 None doc_result)"

text \<open>The header names the session \<open>A\<close>, the body the session \<open>B\<close>.\<close>

definition two_sessions_upstream :: "request list \<Rightarrow> exchange" where
  "two_sessions_upstream h = plain 200 (Some ''A'') doc_session_B"

text \<open>An error envelope as plain JSON, with a new session \<open>A\<close> in the header.\<close>

definition rotating_upstream :: "request list \<Rightarrow> exchange" where
  "rotating_upstream h = plain 200 (Some ''A'') doc_not_found"

text \<open>The body names the session \<open>B\<close>, the header none.\<close>

definition body_session_upstream :: "request list \<Rightarrow> exchange" where
  "body_session_upstream h = plain 200 None doc_session_B"

text \<open>A body that is no JSON, and a stream whose first record is no JSON.\<close>

definition garbled_plain_upstream :: "request list \<Rightarrow> exchange" where
  "garbled_plain_upstream h = plain 200 None ''<html>''"

definition garbled_stream_upstream :: "request list \<Rightarrow> exchange" where
  "garbled_stream_upstream h =
     stream [''data: {broken'' @ [CHR ''\<newline>''],
             ''data: '' @ doc_result @ [CHR ''\<newline>'', CHR ''\<newline>'']]"

text \<open>Every request is accepted; no session id is handed out.\<close>

definition plain_upstream :: "request list \<Rightarrow> exchange" where
  "plain_upstream h = plain 200 None doc_result"

definition fresh_pool :: pool where
  "fresh_pool = \<lparr>shared = startup None None, calls = []\<rparr>"

text \<open>
  The scenarios of the specification's section 8: a cold start, where the handshake
  response names the session \<open>abc123\<close>; and a session that expires once, where the first
  forwarded request is answered "session expired" and the later ones are accepted.
\<close>

definition cold_start_upstream :: "request list \<Rightarrow> exchange" where
  "cold_start_upstream h =
     (case rpc (last h) of
        Initialize \<Rightarrow> plain 200 (Some ''abc123'') doc_result
      | NotifyInitialized \<Rightarrow> plain 202 None []
      | Call method params \<Rightarrow> plain 200 None doc_result)"

definition expiring_once_upstream :: "request list \<Rightarrow> exchange" where
  "expiring_once_upstream h =
     (case rpc (last h) of
        Initialize \<Rightarrow> plain 200 None doc_result
      | NotifyInitialized \<Rightarrow> plain 202 None []
      | Call method params \<Rightarrow>
          if list_ex (\<lambda>rq. is_call (rpc rq)) (butlast h) then plain 200 None doc_result
          else plain 200 None doc_expired)"

text \<open>The error "bad state" with the code -32000, under HTTP 500 and under HTTP 200.\<close>

definition bad_state_500_upstream :: "request list \<Rightarrow> exchange" where
  "bad_state_500_upstream h = plain 500 None doc_bad_state"

definition bad_state_200_upstream :: "request list \<Rightarrow> exchange" where
  "bad_state_200_upstream h = plain 200 None doc_bad_state"


text \<open>
  The handshake is answered as plain JSON and names the session \<open>T\<close>; every forwarded
  request is answered with an event stream, one record in two chunks.
\<close>

definition streaming_upstream :: "request list \<Rightarrow> exchange" where
  "streaming_upstream h =
     (case rpc (last h) of
        Initialize \<Rightarrow> plain 200 (Some ''T'') doc_result
      | NotifyInitialized \<Rightarrow> plain 202 None []
      | Call method params \<Rightarrow>
          stream [take 37 (''data: '' @ doc_result_foo),
                  drop 37 (''data: '' @ doc_result_foo) @ [CHR ''\<newline>'', CHR ''\<newline>'']])"

text \<open>
  The body names the session \<open>B\<close> in an event stream, one record in two chunks; and a
  plain body whose \<^verbatim>\<open>result.sessionId\<close> is the number 5.
\<close>

definition session_stream_upstream :: "request list \<Rightarrow> exchange" where
  "session_stream_upstream h =
     stream [take 20 (''data: '' @ doc_session_B),
             drop 20 (''data: '' @ doc_session_B) @ [CHR ''\<newline>'', CHR ''\<newline>'']]"

definition numeric_session_upstream :: "request list \<Rightarrow> exchange" where
  "numeric_session_upstream h = plain 200 None doc_session_5"

section \<open>What an exchange does to the state\<close>


lemma truthy_opt_prop: "truthy (opt_prop r k) \<Longrightarrow> truthy r"
  by (cases r; simp) (rename_tac v; case_tac v; simp)

lemma member_Inr: "member d k = Inr r \<Longrightarrow> d \<noteq> JNull \<and> r = get_prop d k"
  by (cases d) auto

lemma member_not_null: "d \<noteq> JNull \<Longrightarrow> member d k = Inr (get_prop d k)"
  by (cases d) auto

lemma strict_eq_imp_eq: "strict_eq a b \<Longrightarrow> a = b"
  by (induction a b rule: strict_eq.induct) auto

lemma save_trace [simp]: "trace (saveSessionToCache E v st) = trace st"
  by (simp add: saveSessionToCache_def Let_def split: option.splits json.splits)

lemma save_initialized [simp]:
  "upstreamInitialized (saveSessionToCache E v st) = upstreamInitialized st"
  by (simp add: saveSessionToCache_def Let_def split: option.splits json.splits)

lemma save_session_id:
  "truthy (Some v) \<Longrightarrow> upstreamSessionId (saveSessionToCache E (Some v) st) = v"
  by (auto simp: saveSessionToCache_def Let_def dest: strict_eq_imp_eq split: json.splits)

lemma sse_record_state:
  "sse_record E l st = (r, st') \<Longrightarrow>
   st' = (case r of
            None \<Rightarrow> st
          | Some d \<Rightarrow> if truthy (body_session d)
                      then saveSessionToCache E (body_session d) st else st)"
  by (auto simp: sse_record_def body_session_def Let_def
           dest!: member_Inr dest: truthy_opt_prop
           split: if_splits sum.splits)

lemma sse_lines_state:
  "sse_lines E ls st = (r, st') \<Longrightarrow>
   st' = (case r of
            None \<Rightarrow> st
          | Some d \<Rightarrow> if truthy (body_session d)
                      then saveSessionToCache E (body_session d) st else st)"
proof (induction ls arbitrary: st)
  case Nil
  then show ?case by simp
next
  case (Cons l ls)
  obtain r1 st1 where r1: "sse_record E l st = (r1, st1)" by (cases "sse_record E l st")
  show ?case
  proof (cases r1)
    case None
    with r1 have "st1 = st" using sse_record_state [OF r1] by simp
    with Cons r1 None show ?thesis by simp
  next
    case (Some d)
    with Cons.prems r1 have "r = Some d" "st' = st1" by simp_all
    with sse_record_state [OF r1] Some show ?thesis by simp
  qed
qed

lemma sse_loop_state:
  "sse_loop E buf cs st = (r, st') \<Longrightarrow> st' = after_body E r st"
proof (induction cs arbitrary: buf st)
  case Nil
  then show ?case by (auto simp: after_body_def)
next
  case (Cons c cs)
  obtain r1 st1 where r1: "sse_lines E (butlast (split_nl (buf @ c))) st = (r1, st1)"
    by (cases "sse_lines E (butlast (split_nl (buf @ c))) st")
  show ?case
  proof (cases r1)
    case None
    with sse_lines_state [OF r1] have "st1 = st" by simp
    with Cons r1 None show ?thesis by (simp add: Let_def)
  next
    case (Some d)
    with Cons.prems r1 have "r = Inr d" "st' = st1" by (simp_all add: Let_def)
    with sse_lines_state [OF r1] Some show ?thesis by (simp add: after_body_def)
  qed
qed

lemma read_json_state:
  "read_json E res st = (r, st') \<Longrightarrow> st' = after_body E r st"
  by (auto simp: read_json_def after_body_def body_session_def
           dest!: member_Inr split: sum.splits if_splits)

lemma read_response_state:
  "read_response E res st = (r, st') \<Longrightarrow> st' = after_body E r st"
  by (auto simp: read_response_def after_body_def
           dest: sse_loop_state read_json_state split: if_splits)

lemma after_body_trace [simp]: "trace (after_body E r st) = trace st"
  by (simp add: after_body_def split: sum.splits)

lemma capture_header_trace [simp]: "trace (capture_header E res st) = trace st"
  by (simp add: capture_header_def split: option.splits)

lemma fetch_trace:
  "fetch E rq st = (r, st') \<Longrightarrow>
   st' = (if accepted E rq
          then st\<lparr>trace := trace st @ [(rq, upstream E (map fst (trace st) @ [rq]))]\<rparr>
          else st)"
  by (auto simp: fetch_def accepted_def Let_def split: reply.splits option.splits)

lemma fetch_refused:
  "refusal E rq = Some m \<Longrightarrow> fetch E rq st = (Inl (mkError m), st)"
  by (simp add: fetch_def)

lemma fetchMcp_trace:
  "fetchMcp E b st = (r, st') \<Longrightarrow>
   trace st' = (if accepted E (mk_request E st b)
                then trace st @ [(mk_request E st b,
                                  upstream E (map fst (trace st) @ [mk_request E st b]))]
                else trace st)"
  by (auto simp: fetchMcp_def split: prod.splits sum.splits if_splits
           dest!: fetch_trace read_response_state)
section \<open>The event stream, whatever its chunks\<close>

lemma split_nl_nonempty [simp]: "split_nl s \<noteq> []"
  by (induction s) (auto split: list.splits)

lemma split_nl_Cons:
  "split_nl (c # cs) =
     (if c = CHR ''\<newline>'' then [] # split_nl cs
      else (c # hd (split_nl cs)) # tl (split_nl cs))"
  by (cases "split_nl cs") (use split_nl_nonempty [of cs] in auto)

declare split_nl.simps(2) [simp del]

lemma last_split_nl_Cons:
  "last (split_nl (c # cs)) =
     (if c \<noteq> CHR ''\<newline>'' \<and> tl (split_nl cs) = [] then c # last (split_nl cs)
      else last (split_nl cs))"
  by (cases "split_nl cs") (use split_nl_nonempty [of cs] in \<open>auto simp: split_nl_Cons\<close>)

lemma butlast_split_nl_Cons:
  "butlast (split_nl (c # cs)) =
     (if c = CHR ''\<newline>'' then [] # butlast (split_nl cs)
      else if tl (split_nl cs) = [] then []
      else (c # hd (split_nl cs)) # butlast (tl (split_nl cs)))"
  by (cases "split_nl cs") (use split_nl_nonempty [of cs] in \<open>auto simp: split_nl_Cons\<close>)

lemma last_split_nl_no_newline: "CHR ''\<newline>'' \<notin> set (last (split_nl s))"
  by (induction s) (auto simp: last_split_nl_Cons)

lemma split_nl_no_newline: "CHR ''\<newline>'' \<notin> set s \<Longrightarrow> split_nl s = [s]"
  by (induction s) (auto simp: split_nl_Cons)

lemma split_nl_append:
  "split_nl (xs @ ys)
     = butlast (split_nl xs) @ split_nl (last (split_nl xs) @ ys)"
proof (induction xs)
  case Nil
  then show ?case by simp
next
  case (Cons c xs)
  show ?case
  proof (cases "c = CHR ''\<newline>''")
    case True
    with Cons show ?thesis by (simp add: split_nl_Cons)
  next
    case False
    show ?thesis
    proof (cases "tl (split_nl xs) = []")
      case True
      then obtain b where one: "split_nl xs = [b]"
        by (cases "split_nl xs") (use split_nl_nonempty [of xs] in auto)
      with Cons have "split_nl (xs @ ys) = split_nl (b @ ys)" by simp
      with False one show ?thesis
        by (simp add: split_nl_Cons)
    next
      case many: False
      then obtain l l' ls where sp: "split_nl xs = l # l' # ls"
        by (cases "split_nl xs"; cases "tl (split_nl xs)") (use split_nl_nonempty [of xs] in auto)
      with Cons False show ?thesis
        by (simp add: split_nl_Cons)
    qed
  qed
qed

lemma complete_lines_append:
  "complete_lines (xs @ ys)
     = complete_lines xs @ complete_lines (last (split_nl xs) @ ys)"
  unfolding complete_lines_def
  by (subst split_nl_append) (simp add: butlast_append)

lemma sse_record_answer:
  "sse_record E l st =
     (case sse_answer E l of
        None \<Rightarrow> (None, st)
      | Some d \<Rightarrow> (Some d, after_body E (Inr d) st))"
proof (cases "startsWith l ''data: ''")
  case False
  then show ?thesis by (simp add: sse_record_def sse_answer_def)
next
  case marker: True
  show ?thesis
  proof (cases "JSON_parse E (trim (drop 6 l))")
    case (Inl m)
    with marker show ?thesis by (simp add: sse_record_def sse_answer_def)
  next
    case (Inr d)
    show ?thesis
    proof (cases "d = JNull")
      case True
      with marker Inr show ?thesis by (simp add: sse_record_def sse_answer_def)
    next
      case False
      then have m: "member d ''result'' = Inr (get_prop d ''result'')"
        by (rule member_not_null)
      have quiet: "\<not> truthy (opt_prop (get_prop d ''result'') ''sessionId'')"
        if "\<not> truthy (get_prop d ''result'')"
        using that truthy_opt_prop by blast
      from marker Inr False m quiet show ?thesis
        by (simp add: sse_record_def sse_answer_def Let_def after_body_def body_session_def)
    qed
  qed
qed

lemma sse_lines_first:
  "sse_lines E ls st =
     (case sse_first E ls of
        None \<Rightarrow> (None, st)
      | Some d \<Rightarrow> (Some d, after_body E (Inr d) st))"
proof (induction ls)
  case Nil
  then show ?case by simp
next
  case (Cons l ls)
  then show ?case
    by (cases "sse_answer E l") (simp_all add: sse_record_answer)
qed

lemma sse_first_append:
  "sse_first E (as @ bs) = (case sse_first E as of Some d \<Rightarrow> Some d | None \<Rightarrow> sse_first E bs)"
  by (induction as) (auto split: option.splits)

text \<open>
  The read loop returns the first answer among the complete lines of what is still to
  come, and throws when there is none; how the text is cut into chunks plays no part.
\<close>

lemma sse_loop_first:
  assumes "CHR ''\<newline>'' \<notin> set buf"
  shows "sse_loop E buf cs st =
     (case sse_first E (complete_lines (buf @ concat cs)) of
        None \<Rightarrow> (Inl (mkError ''Upstream SSE stream ended without a result''), st)
      | Some d \<Rightarrow> (Inr d, after_body E (Inr d) st))"
  using assms
proof (induction cs arbitrary: buf)
  case Nil
  then show ?case by (simp add: complete_lines_def split_nl_no_newline)
next
  case (Cons c cs)
  have "complete_lines (buf @ concat (c # cs))
          = complete_lines (buf @ c) @ complete_lines (last (split_nl (buf @ c)) @ concat cs)"
    using complete_lines_append [of "buf @ c" "concat cs"] by simp
  with Cons.IH [OF last_split_nl_no_newline, of "buf @ c"] show ?case
    by (auto simp: Let_def sse_lines_first sse_first_append complete_lines_def
             split: option.splits)
qed

lemma read_response_envelope:
  assumes "ok res" and "envelope E res = Some d"
  shows "read_response E res st = (Inr d, after_body E (Inr d) st)"
proof (cases "is_event_stream res")
  case True
  with assms sse_loop_first [of "[]" E "chunks res" st] show ?thesis
    by (simp add: read_response_def envelope_def is_event_stream_def)
next
  case False
  with assms show ?thesis
    by (cases "JSON_parse E (concat (chunks res))")
       (auto simp: read_response_def envelope_def is_event_stream_def read_json_def
          after_body_def body_session_def member_not_null split: if_splits)
qed

lemma read_response_no_envelope:
  assumes "ok res" and "envelope E res = None"
  shows "\<exists>e. read_response E res st = (Inl e, st)"
proof (cases "is_event_stream res")
  case True
  with assms sse_loop_first [of "[]" E "chunks res" st] show ?thesis
    by (simp add: read_response_def envelope_def is_event_stream_def)
next
  case False
  with assms show ?thesis
    by (cases "JSON_parse E (concat (chunks res))")
       (auto simp: read_response_def envelope_def is_event_stream_def read_json_def
          split: if_splits)
qed

section \<open>Counting the requests of a call\<close>


lemma fetch_counts:
  "fetch E rq st = (r, st') \<Longrightarrow>
   handshakes st' = handshakes st + (if accepted E rq \<and> rpc rq = Initialize then 1 else 0)
   \<and> sends st' = sends st + (if accepted E rq \<and> is_call (rpc rq) then 1 else 0)"
  by (auto simp: handshakes_def sends_def requests_def dest!: fetch_trace)

lemma fetchMcp_counts:
  "fetchMcp E b st = (r, st') \<Longrightarrow>
   handshakes st' = handshakes st
      + (if accepted E (mk_request E st b) \<and> b = Initialize then 1 else 0)
   \<and> sends st' = sends st + (if accepted E (mk_request E st b) \<and> is_call b then 1 else 0)"
  by (auto simp: handshakes_def sends_def requests_def mk_request_def dest!: fetchMcp_trace)

lemma fetchMcp_counts_le:
  "fetchMcp E b st = (r, st') \<Longrightarrow>
   handshakes st' \<le> handshakes st + (if b = Initialize then 1 else 0)
   \<and> sends st' \<le> sends st + (if is_call b then 1 else 0)"
  by (auto dest!: fetchMcp_counts)

lemma notify_counts:
  "notify E st = (r, st') \<Longrightarrow> handshakes st' = handshakes st \<and> sends st' = sends st"
  by (auto simp: notify_def mk_request_def handshakes_def sends_def requests_def
           split: prod.splits sum.splits dest!: fetch_counts)

lemma counts_upd [simp]:
  "handshakes (st\<lparr>upstreamInitialized := b\<rparr>) = handshakes st"
  "sends (st\<lparr>upstreamInitialized := b\<rparr>) = sends st"
  "handshakes (st\<lparr>upstreamSessionId := v\<rparr>) = handshakes st"
  "sends (st\<lparr>upstreamSessionId := v\<rparr>) = sends st"
  "handshakes (st\<lparr>cache_file := f\<rparr>) = handshakes st"
  "sends (st\<lparr>cache_file := f\<rparr>) = sends st"
  by (simp_all add: handshakes_def sends_def requests_def)

lemma clear_counts [simp]:
  "handshakes (clearSessionCache E st) = handshakes st"
  "sends (clearSessionCache E st) = sends st"
  by (simp_all add: clearSessionCache_def Let_def)

lemma ensure_try_counts:
  "ensure_try E st = (r, st') \<Longrightarrow> handshakes st' \<le> handshakes st + 1 \<and> sends st' = sends st"
  by (auto simp: ensure_try_def split: prod.splits sum.splits if_splits
           dest!: fetchMcp_counts notify_counts)

lemma ensure_catch_counts:
  "ensure_catch E err st = (r, st') \<Longrightarrow> handshakes st' \<le> handshakes st + 1 \<and> sends st' = sends st"
  by (auto simp: ensure_catch_def split: prod.splits sum.splits if_splits
           dest!: fetchMcp_counts notify_counts)

lemma ensure_counts:
  "ensureUpstreamInitialized E st = (r, st') \<Longrightarrow>
   handshakes st' \<le> handshakes st + 2 \<and> sends st' = sends st"
  by (auto simp: ensureUpstreamInitialized_def split: prod.splits sum.splits if_splits
           dest!: ensure_try_counts ensure_catch_counts)

section \<open>The retry of a forwarded call\<close>


lemma forward_second_attempt_counts:
  assumes "forwardToHttpMcp E m p rc st = (r, st')" and "1 \<le> rc"
  shows "handshakes st' \<le> handshakes st + 2 \<and> sends st' \<le> sends st + 1"
  using assms
  by (subst (asm) forwardToHttpMcp.simps)
     (auto split: prod.splits sum.splits option.splits if_splits
           dest!: ensure_counts fetchMcp_counts_le)

lemma sends_throw_session_errorsD:
  assumes "sends_throw_session_errors E"
  obtains e st2 where "fetchMcp E (Call m p) st = (Inl e, st2)"
    and "accepted E (mk_request E st (Call m p)) \<longrightarrow> caught_isSessionError e"
proof (cases "fetchMcp E (Call m p) st")
  case (Pair r st2)
  from assms have "case fetchMcp E (Call m p) st of
      (Inl e, st') \<Rightarrow> accepted E (mk_request E st (Call m p)) \<longrightarrow> caught_isSessionError e
    | (Inr d, st') \<Rightarrow> False"
    unfolding sends_throw_session_errors_def by (elim allE)
  with Pair that show thesis by (cases r) auto
qed

lemma forward_second_attempt_fails:
  assumes H: "sends_throw_session_errors E"
    and run: "forwardToHttpMcp E m p rc st = (r, st')" and rc: "1 \<le> rc"
  shows "\<exists>e. r = Inl e \<and> (sends st' = sends st + 1 \<longrightarrow> caught_isSessionError e)"
proof (cases "ensureUpstreamInitialized E st")
  case (Pair r1 st1)
  show ?thesis
  proof (cases r1)
    case (Inl e)
    with Pair run ensure_counts [OF Pair] show ?thesis
      by (subst (asm) forwardToHttpMcp.simps) auto
  next
    case (Inr u)
    from H obtain e st2 where f: "fetchMcp E (Call m p) st1 = (Inl e, st2)"
      and s: "accepted E (mk_request E st1 (Call m p)) \<longrightarrow> caught_isSessionError e"
      by (rule sends_throw_session_errorsD)
    from Pair Inr f run rc have "r = Inl e" "st' = st2"
      by (subst (asm) forwardToHttpMcp.simps, simp)+
    with s fetchMcp_counts [OF f] ensure_counts [OF Pair] show ?thesis
      by (auto split: if_splits)
  qed
qed

text \<open>
  Whatever the upstream does, one call ends after at most three forwarded requests and six
  \<^verbatim>\<open>initialize\<close> requests: the first attempt, its retry from inside the \<^verbatim>\<open>try\<close> block,
  and one more retry from the \<^verbatim>\<open>catch\<close> block when that retry has failed.
\<close>

lemma forward_unfold:
  "forwardToHttpMcp E m p rc st =
     (case ensureUpstreamInitialized E st of
        (Inl e, st1) \<Rightarrow> (Inl e, st1)
      | (Inr u, st1) \<Rightarrow>
          (case try_block E m p rc st1 of
             (Inr v, st3) \<Rightarrow> (Inr v, st3)
           | (Inl err, st3) \<Rightarrow>
               if rc < 1 \<and> caught_isSessionError err
               then forwardToHttpMcp E m p (rc + 1)
                      ((clearSessionCache E st3)\<lparr>upstreamSessionId := JNull\<rparr>)
               else (Inl err, st3)))"
  unfolding try_block_def by (subst forwardToHttpMcp.simps) (rule refl)

lemma second_attempt_counts:
  assumes "forwardToHttpMcp E m p (Suc rc) ((clearSessionCache E s)\<lparr>upstreamSessionId := JNull\<rparr>)
             = (r, st')"
  shows "handshakes st' \<le> handshakes s + 2 \<and> sends st' \<le> sends s + 1"
  using forward_second_attempt_counts [OF assms] by simp

lemma try_block_counts:
  assumes "try_block E m p rc st1 = (r, st3)"
  shows "handshakes st3 \<le> handshakes st1 + 2 \<and> sends st3 \<le> sends st1 + 2"
  using assms unfolding try_block_def
  by (auto split: prod.splits sum.splits option.splits if_splits
           dest!: fetchMcp_counts_le second_attempt_counts)

lemma forward_requests_bounded:
  assumes "forwardToHttpMcp E m p rc st = (r, st')"
  shows "handshakes st' \<le> handshakes st + 6 \<and> sends st' \<le> sends st + 3"
  using assms
  by (subst (asm) forward_unfold)
     (auto split: prod.splits sum.splits if_splits
           dest!: ensure_counts try_block_counts second_attempt_counts)

section \<open>Unfolding the model on a concrete run\<close>

lemmas model_defs =
  fetchMcp_def fetch_def refusal_def accepted_def mk_request_def read_response_def read_json_def capture_header_def
  saveSessionToCache_def clearSessionCache_def http_error_def ok_def notify_def
  ensure_try_def ensure_catch_def ensureUpstreamInitialized_def init_isSessionError_def
  body_isSessionError_def caught_isSessionError_def upstream_error_def mkError_def
  toLowerCase_def lower_char_def startup_def sse_record_def trim_def is_space_def
  Let_def digits.simps split_nl.simps

lemmas example_defs =
  env_of_def node_header_check_def is_http_space_def plain_def stream_def parse_examples_def q_def doc_result_def doc_result_null_def
  doc_result_foo_def doc_session_B_def doc_session_5_def doc_already_def doc_expired_def doc_not_found_def doc_bad_state_def

lemmas count_defs = handshakes_def sends_def requests_def rpcs_def

section \<open>The scenarios of the specification\<close>

lemma cold_start_example:
  "requests (snd (forwardToHttpMcp (env_of cold_start_upstream) ''tools/list'' (JObj []) 0
                    (startup None None)))
     = [\<lparr>authorization = None, mcp_session_id = None, rpc = Initialize\<rparr>,
        \<lparr>authorization = None, mcp_session_id = Some (JStr ''abc123''), rpc = NotifyInitialized\<rparr>,
        \<lparr>authorization = None, mcp_session_id = Some (JStr ''abc123''),
         rpc = Call ''tools/list'' (JObj [])\<rparr>]
   \<and> fst (forwardToHttpMcp (env_of cold_start_upstream) ''tools/list'' (JObj []) 0
            (startup None None)) = Inr (Some (JObj []))
   \<and> cache_file (snd (forwardToHttpMcp (env_of cold_start_upstream) ''tools/list'' (JObj []) 0
                        (startup None None))) = Some ''abc123''"
  by (simp add: forwardToHttpMcp.simps model_defs example_defs cold_start_upstream_def count_defs)

lemma mid_session_expiry_example:
  "rpcs (snd (forwardToHttpMcp (env_of expiring_once_upstream) ''tools/call'' (JObj []) 0
                (ready ''T'')))
     = [Call ''tools/call'' (JObj []), Initialize, NotifyInitialized, Call ''tools/call'' (JObj [])]
   \<and> fst (forwardToHttpMcp (env_of expiring_once_upstream) ''tools/call'' (JObj []) 0
            (ready ''T'')) = Inr (Some (JObj []))"
  by (simp add: forwardToHttpMcp.simps model_defs example_defs expiring_once_upstream_def
        count_defs ready_def)

section \<open>C1: the retry bound\<close>

text \<open>
  C1 (as amended). If every forwarded request fails in the transport with a session error
  (HTTP 401 or 406, or a thrown error whose message matches), one call of
  \<^verbatim>\<open>forwardToHttpMcp\<close> sends the request at most twice and then gives the failure to the
  caller; it runs \<^verbatim>\<open>ensureUpstreamInitialized\<close> at most twice, each run sending at most
  two \<^verbatim>\<open>initialize\<close> requests, so at most four in all.
\<close>

theorem retry_once_bound:
  assumes H: "sends_throw_session_errors E"
    and run: "forwardToHttpMcp E m p 0 st = (r, st')"
  shows "handshakes st' \<le> handshakes st + 4 \<and> sends st' \<le> sends st + 2
         \<and> (\<exists>e. r = Inl e \<and> (sends st' = sends st + 2 \<longrightarrow> caught_isSessionError e))"
proof (cases "ensureUpstreamInitialized E st")
  case (Pair r1 st1)
  note c1 = ensure_counts [OF Pair]
  show ?thesis
  proof (cases r1)
    case (Inl e)
    with Pair run c1 show ?thesis
      by (subst (asm) forwardToHttpMcp.simps) auto
  next
    case (Inr u)
    from H obtain e st2 where f: "fetchMcp E (Call m p) st1 = (Inl e, st2)"
      and s: "accepted E (mk_request E st1 (Call m p)) \<longrightarrow> caught_isSessionError e"
      by (rule sends_throw_session_errorsD)
    note c2 = fetchMcp_counts [OF f]
    show ?thesis
    proof (cases "caught_isSessionError e")
      case True
      let ?st3 = "(clearSessionCache E st2)\<lparr>upstreamSessionId := JNull\<rparr>"
      from Pair Inr f True run have again: "forwardToHttpMcp E m p 1 ?st3 = (r, st')"
        by (subst (asm) forwardToHttpMcp.simps) simp
      from forward_second_attempt_counts [OF again] forward_second_attempt_fails [OF H again]
        c1 c2
      show ?thesis by (auto split: if_splits)
    next
      case False
      with Pair Inr f run have "r = Inl e" "st' = st2"
        by (subst (asm) forwardToHttpMcp.simps, simp)+
      with False s c1 c2 show ?thesis by (auto split: if_splits)
    qed
  qed
qed

theorem retry_once_bound_witness:
  "sends_throw_session_errors (env_of flaky_upstream)
   \<and> handshakes (snd (forwardToHttpMcp (env_of flaky_upstream) ''tools/list'' (JObj []) 0
                         (startup None None))) \<le> handshakes (startup None None) + 4
   \<and> sends (snd (forwardToHttpMcp (env_of flaky_upstream) ''tools/list'' (JObj []) 0
                    (startup None None))) \<le> sends (startup None None) + 2
   \<and> (\<exists>e. fst (forwardToHttpMcp (env_of flaky_upstream) ''tools/list'' (JObj []) 0
                    (startup None None)) = Inl e)"
proof -
  let ?run = "forwardToHttpMcp (env_of flaky_upstream) ''tools/list'' (JObj []) 0 (startup None None)"
  have H: "sends_throw_session_errors (env_of flaky_upstream)"
    by (simp add: sends_throw_session_errors_def model_defs example_defs flaky_upstream_def)
  have run: "?run = (fst ?run, snd ?run)" by simp
  from retry_once_bound [OF H run] H show ?thesis by blast
qed

text \<open>
  C1 as the specification states it, with at most two handshakes in all, does not hold: here every response of
  the upstream is a session error, the forwarded request is sent once, and three
  \<^verbatim>\<open>initialize\<close> requests go out.
\<close>

theorem retry_bound_counterexample:
  "sends_throw_session_errors (env_of stale_upstream)
   \<and> rpcs (snd (forwardToHttpMcp (env_of stale_upstream) ''tools/list'' (JObj []) 0
                   (startup None None)))
       = [Initialize, Call ''tools/list'' (JObj []), Initialize, Initialize]
   \<and> handshakes (snd (forwardToHttpMcp (env_of stale_upstream) ''tools/list'' (JObj []) 0
                         (startup None None))) = 3"
proof -
  have H: "sends_throw_session_errors (env_of stale_upstream)"
    by (simp add: sends_throw_session_errors_def model_defs example_defs stale_upstream_def)
  have t: "trace (snd (forwardToHttpMcp (env_of stale_upstream) ''tools/list'' (JObj []) 0
                   (startup None None)))
       = [(\<lparr>authorization = None, mcp_session_id = None, rpc = Initialize\<rparr>,
           plain 200 None doc_already),
          (\<lparr>authorization = None, mcp_session_id = None, rpc = Call ''tools/list'' (JObj [])\<rparr>,
           plain 401 None ''Unauthorized''),
          (\<lparr>authorization = None, mcp_session_id = None, rpc = Initialize\<rparr>,
           plain 401 None ''Unauthorized''),
          (\<lparr>authorization = None, mcp_session_id = None, rpc = Initialize\<rparr>,
           plain 401 None ''Unauthorized'')]"
    by (simp add: forwardToHttpMcp.simps model_defs example_defs stale_upstream_def)
  from H show ?thesis by (simp add: t count_defs)
qed

text \<open>
  The bound of four is reached: both runs of \<^verbatim>\<open>ensureUpstreamInitialized\<close> retry the
  handshake once.
\<close>

lemma four_handshakes_example:
  "rpcs (snd (forwardToHttpMcp (env_of flaky_upstream) ''tools/list'' (JObj []) 0
                (startup None None)))
   = [Initialize, Initialize, NotifyInitialized, Call ''tools/list'' (JObj []),
      Initialize, Initialize, NotifyInitialized, Call ''tools/list'' (JObj [])]"
  by (simp add: forwardToHttpMcp.simps model_defs example_defs flaky_upstream_def count_defs)

text \<open>
  When the session error arrives in the body of a response, the retry of line 298 runs
  inside the \<^verbatim>\<open>try\<close>: its failure is caught by the calling invocation, whose retry
  counter is still 0, and the request is sent a third time.
\<close>

lemma third_attempt_example:
  "rpcs (snd (forwardToHttpMcp (env_of expiring_upstream) ''tools/call'' (JObj []) 0
                (startup None None)))
   = [Initialize, NotifyInitialized, Call ''tools/call'' (JObj []),
      Initialize, NotifyInitialized, Call ''tools/call'' (JObj []),
      Initialize, NotifyInitialized, Call ''tools/call'' (JObj [])]"
  by (simp add: forwardToHttpMcp.simps model_defs example_defs expiring_upstream_def count_defs)
section \<open>C2: the timeout\<close>

lemma timeout_ignored_save:
  "saveSessionToCache (E\<lparr>TIMEOUT_MS := t\<rparr>) v st = saveSessionToCache E v st"
  by (simp add: saveSessionToCache_def cong: option.case_cong json.case_cong if_cong)

lemma timeout_ignored_record:
  "sse_record (E\<lparr>TIMEOUT_MS := t\<rparr>) l st = sse_record E l st"
  by (simp add: sse_record_def timeout_ignored_save cong: sum.case_cong if_cong)

lemma timeout_ignored_lines:
  "sse_lines (E\<lparr>TIMEOUT_MS := t\<rparr>) ls st = sse_lines E ls st"
  by (induction ls arbitrary: st)
     (simp_all add: timeout_ignored_record cong: prod.case_cong option.case_cong)

lemma timeout_ignored_loop:
  "sse_loop (E\<lparr>TIMEOUT_MS := t\<rparr>) buf cs st = sse_loop E buf cs st"
  by (induction cs arbitrary: buf st)
     (simp_all add: timeout_ignored_lines Let_def cong: prod.case_cong option.case_cong)

lemma timeout_ignored_refusal:
  "refusal (E\<lparr>TIMEOUT_MS := t\<rparr>) rq = refusal E rq"
  by (simp add: refusal_def split: option.splits)

lemma timeout_ignored_fetch:
  "fetch (E\<lparr>TIMEOUT_MS := t\<rparr>) rq st = fetch E rq st"
  by (simp add: fetch_def timeout_ignored_refusal split: option.splits)

lemma timeout_ignored_read:
  "read_response (E\<lparr>TIMEOUT_MS := t\<rparr>) res st = read_response E res st"
  by (simp add: read_response_def http_error_def read_json_def timeout_ignored_save
        timeout_ignored_loop cong: sum.case_cong if_cong)

lemma timeout_ignored_capture:
  "capture_header (E\<lparr>TIMEOUT_MS := t\<rparr>) res st = capture_header E res st"
  by (simp add: capture_header_def timeout_ignored_save split: option.splits)

text \<open>
  No exchange depends on the configured timeout: the handshake and the forwarded
  requests go through \<^verbatim>\<open>fetchMcp\<close>, the notification through \<open>notify\<close>.
\<close>

lemma timeout_ignored_request:
  "mk_request (E\<lparr>TIMEOUT_MS := t\<rparr>) st b = mk_request E st b"
  by (simp add: mk_request_def)

lemma timeout_ignored:
  "fetchMcp (E\<lparr>TIMEOUT_MS := t\<rparr>) b st = fetchMcp E b st"
  "notify (E\<lparr>TIMEOUT_MS := t\<rparr>) st = notify E st"
  by (simp_all add: fetchMcp_def notify_def timeout_ignored_fetch timeout_ignored_request
        timeout_ignored_read timeout_ignored_capture split: prod.splits sum.splits)

text \<open>
  C2. The README promises a request timeout of \<^verbatim>\<open>MCP_TIMEOUT_MS\<close>, 15000 ms unless set.
  The code reads the variable and never uses it: with that timeout, a response that takes
  20000 ms is awaited to its end and returned as any other.
\<close>

theorem timeout_not_enforced:
  "TIMEOUT_MS (env_of slow_upstream) = 15000
   \<and> fst (fetchMcp (env_of slow_upstream) (Call ''tools/list'' (JObj [])) (ready ''T''))
       = Inr (JObj [(''result'', JObj [])])
   \<and> elapsed (snd (fetchMcp (env_of slow_upstream) (Call ''tools/list'' (JObj [])) (ready ''T'')))
       = 20000"
  by (simp add: model_defs example_defs slow_upstream_def ready_def elapsed_def)

section \<open>C3: the first record with a result or an error\<close>

lemma stream_reconstruction_example:
  "fst (fetchMcp (env_of split_stream_upstream) (Call ''tools/list'' (JObj [])) (ready ''T''))
   = Inr (JObj [(''jsonrpc'', JStr ''2.0''), (''id'', JStr ''1''),
                (''result'', JObj [(''foo'', JNum 1)])])"
  by (simp add: model_defs example_defs split_stream_upstream_def ready_def)

lemma sse_record_truthy:
  assumes "startsWith l ''data: ''" and "JSON_parse E (trim (drop 6 l)) = Inr d"
    and "truthy (opt_prop (Some d) ''result'') \<or> truthy (opt_prop (Some d) ''error'')"
  shows "fst (sse_record E l st) = Some d"
  using assms by (cases d) (auto simp: sse_record_def Let_def)

lemma null_result_plain_example:
  "fst (forwardToHttpMcp (env_of null_plain_upstream) ''logging/setLevel'' (JObj []) 0 (ready ''T''))
   = Inr (Some JNull)"
  by (simp add: forwardToHttpMcp.simps model_defs example_defs null_plain_upstream_def ready_def)

text \<open>
  C3. The test of line 145 is on the truth value of \<^verbatim>\<open>data.result\<close>, not on the presence
  of the field: a record whose result is \<^verbatim>\<open>null\<close> is passed over, and the stream ends
  without an answer.
\<close>

theorem falsy_result_skipped:
  "fst (fetchMcp (env_of null_stream_upstream) (Call ''logging/setLevel'' (JObj [])) (ready ''T''))
   = Inl (mkError ''Upstream SSE stream ended without a result'')"
  by (simp add: model_defs example_defs null_stream_upstream_def ready_def)

section \<open>C4: the classification of errors\<close>

text \<open>
  C4 (as amended). There are three tests, not one function. The test on the error of a
  response body is the rule of the specification for a failure without HTTP status; the
  test on a caught error in \<^verbatim>\<open>forwardToHttpMcp\<close> is the rule with the application code
  left out; the handshake's test is the latter without "expired".
\<close>

theorem classification_sites:
  "body_isSessionError (toLowerCase msg) er = spec_isSessionError msg None (get_prop er ''code'')
   \<and> caught_isSessionError e = spec_isSessionError (message e) (status e) None
   \<and> caught_isSessionError e
       = (init_isSessionError e \<or> includes_str (toLowerCase (message e)) ''expired'')"
  by (auto simp: body_isSessionError_def caught_isSessionError_def init_isSessionError_def
        spec_isSessionError_def Let_def)

theorem classification_counterexample:
  "caught_isSessionError (mkError ''token expired'')
   \<and> \<not> init_isSessionError (mkError ''token expired'')
   \<and> spec_isSessionError ''bad state'' (Some 500) (Some (JNum (- 32000)))
   \<and> \<not> caught_isSessionError
         \<lparr>message = ''bad state'', status = Some 500, code = Some (JNum (- 32000)), data = None\<rparr>"
  by (simp add: caught_isSessionError_def init_isSessionError_def spec_isSessionError_def
        mkError_def toLowerCase_def lower_char_def)

text \<open>
  The two tests of \<^verbatim>\<open>forwardToHttpMcp\<close> at work on the same error object: under HTTP 200
  the code -32000 makes the call retry, under HTTP 500 the error goes to the caller after
  one forwarded request.
\<close>

lemma bad_state_example:
  "rpcs (snd (forwardToHttpMcp (env_of bad_state_200_upstream) ''tools/call'' (JObj []) 0
                (ready ''T'')))
     = [Call ''tools/call'' (JObj []), Initialize]
   \<and> rpcs (snd (forwardToHttpMcp (env_of bad_state_500_upstream) ''tools/call'' (JObj []) 0
                   (ready ''T'')))
     = [Call ''tools/call'' (JObj [])]
   \<and> fst (forwardToHttpMcp (env_of bad_state_500_upstream) ''tools/call'' (JObj []) 0
            (ready ''T''))
     = Inl \<lparr>message = ''bad state'', status = Some 500, code = Some (JNum (- 32000)),
            data = None\<rparr>"
  by (simp add: forwardToHttpMcp.simps model_defs example_defs bad_state_200_upstream_def
        bad_state_500_upstream_def count_defs ready_def)

section \<open>C5: which errors reach the caller\<close>


lemma ensure_ready:
  "upstreamInitialized st \<Longrightarrow> ensureUpstreamInitialized E st = (Inr (), st)"
  by (simp add: ensureUpstreamInitialized_def)











section \<open>C6: the session is reused\<close>


lemma well_behavedD:
  assumes "well_behaved E T"
  shows "good_exchange E T (upstream E (h @ [mk_request E st (Call m p)]))"
    and "good_exchange E T (upstream E (h @ [mk_request E st Initialize]))"
    and "assigns_session T (upstream E (h @ [mk_request E st Initialize]))"
    and "delivered (upstream E (h @ [mk_request E st NotifyInitialized]))"
proof -
  have "\<And>h. case rpc (last h) of
             Initialize \<Rightarrow> good_exchange E T (upstream E h) \<and> assigns_session T (upstream E h)
           | NotifyInitialized \<Rightarrow> delivered (upstream E h)
           | Call method params \<Rightarrow> good_exchange E T (upstream E h)"
    using assms unfolding well_behaved_def by (elim allE)
  from this [of "h @ [mk_request E st (Call m p)]"] this [of "h @ [mk_request E st Initialize]"]
    this [of "h @ [mk_request E st NotifyInitialized]"]
  show "good_exchange E T (upstream E (h @ [mk_request E st (Call m p)]))"
    and "good_exchange E T (upstream E (h @ [mk_request E st Initialize]))"
    and "assigns_session T (upstream E (h @ [mk_request E st Initialize]))"
    and "delivered (upstream E (h @ [mk_request E st NotifyInitialized]))"
    by (simp_all add: mk_request_def)
qed

lemma save_same [simp]:
  "upstreamSessionId st = JStr T \<Longrightarrow> saveSessionToCache E (Some (JStr T)) st = st"
  by (simp add: saveSessionToCache_def)

lemma sse_first_not_null: "sse_first E ls = Some d \<Longrightarrow> d \<noteq> JNull"
  by (induction ls) (auto simp: sse_answer_def split: option.splits sum.splits if_splits)

lemma envelope_not_null: "envelope E res = Some d \<Longrightarrow> d \<noteq> JNull"
  by (auto simp: envelope_def dest: sse_first_not_null split: if_splits sum.splits)

lemma good_exchangeD:
  assumes "good_exchange E T x"
  obtains res d where "answer x = Response res" and "ok res"
    and "hdr_session res = None \<or> hdr_session res = Some T"
    and "envelope E res = Some d" and "d \<noteq> JNull"
    and "\<not> truthy (get_prop d ''error'')" and "\<not> truthy (body_session d)"
  using assms envelope_not_null
  by (auto simp: good_exchange_def split: reply.splits option.splits)

lemma accepted_rpc:
  "accepted E (request_with E T b) = accepted E (request_with E T b')"
  by (simp add: accepted_def refusal_def request_with_def split: option.splits)

text \<open>A good answer, read with the session \<open>T\<close> in force, changes nothing but the trace.\<close>

lemma good_fetchMcp:
  assumes g: "good_exchange E T (upstream E (requests st @ [mk_request E st b]))"
    and s: "upstreamSessionId st = JStr T"
    and a: "accepted E (mk_request E st b)"
  shows "\<exists>d x. fetchMcp E b st = (Inr d, st\<lparr>trace := trace st @ [(mk_request E st b, x)]\<rparr>)
               \<and> d \<noteq> JNull \<and> \<not> truthy (get_prop d ''error'')"
proof -
  let ?rq = "mk_request E st b"
  let ?x = "upstream E (requests st @ [?rq])"
  let ?st1 = "st\<lparr>trace := trace st @ [(?rq, ?x)]\<rparr>"
  from g obtain res d where r: "answer ?x = Response res" and k: "ok res"
    and h: "hdr_session res = None \<or> hdr_session res = Some T"
    and e: "envelope E res = Some d" and d: "d \<noteq> JNull" "\<not> truthy (get_prop d ''error'')"
    and b: "\<not> truthy (body_session d)"
    by (rule good_exchangeD)
  from a r have f: "fetch E ?rq st = (Inr res, ?st1)"
    by (simp add: fetch_def accepted_def requests_def Let_def)
  from h s have c: "capture_header E res ?st1 = ?st1"
    by (auto simp: capture_header_def)
  from b have "after_body E (Inr d) ?st1 = ?st1" by (simp add: after_body_def)
  with read_response_envelope [OF k e, of ?st1]
  have "read_response E res ?st1 = (Inr d, ?st1)" by simp
  with f c have "fetchMcp E b st = (Inr d, ?st1)" by (simp add: fetchMcp_def)
  with d show ?thesis by blast
qed

text \<open>The answer to the handshake puts the session \<open>T\<close> in force, whatever was there.\<close>

lemma good_handshake:
  assumes g: "good_exchange E T (upstream E (requests st @ [mk_request E st Initialize]))"
    and n: "assigns_session T (upstream E (requests st @ [mk_request E st Initialize]))"
    and T: "T \<noteq> []"
    and a: "accepted E (mk_request E st Initialize)"
  shows "\<exists>d x st1. fetchMcp E Initialize st = (Inr d, st1)
               \<and> trace st1 = trace st @ [(mk_request E st Initialize, x)]
               \<and> upstreamSessionId st1 = JStr T
               \<and> upstreamInitialized st1 = upstreamInitialized st
               \<and> d \<noteq> JNull \<and> \<not> truthy (get_prop d ''error'')"
proof -
  let ?rq = "mk_request E st Initialize"
  let ?x = "upstream E (requests st @ [?rq])"
  let ?st1 = "st\<lparr>trace := trace st @ [(?rq, ?x)]\<rparr>"
  let ?st2 = "saveSessionToCache E (Some (JStr T)) ?st1"
  from g obtain res d where r: "answer ?x = Response res" and k: "ok res"
    and e: "envelope E res = Some d" and d: "d \<noteq> JNull" "\<not> truthy (get_prop d ''error'')"
    and b: "\<not> truthy (body_session d)"
    by (rule good_exchangeD)
  from n r have h: "hdr_session res = Some T" by simp
  from a r have f: "fetch E ?rq st = (Inr res, ?st1)"
    by (simp add: fetch_def accepted_def requests_def Let_def)
  from h T have c: "capture_header E res ?st1 = ?st2"
    by (simp add: capture_header_def)
  from b have "after_body E (Inr d) ?st2 = ?st2" by (simp add: after_body_def)
  with read_response_envelope [OF k e, of ?st2]
  have "read_response E res ?st2 = (Inr d, ?st2)" by simp
  with f c have "fetchMcp E Initialize st = (Inr d, ?st2)" by (simp add: fetchMcp_def)
  moreover from T have "upstreamSessionId ?st2 = JStr T" by (simp add: save_session_id)
  moreover have "trace ?st2 = trace st @ [(?rq, ?x)]" by simp
  moreover have "upstreamInitialized ?st2 = upstreamInitialized st" by simp
  ultimately show ?thesis using d by blast
qed


lemma mk_request_with:
  "upstreamSessionId st = JStr T \<Longrightarrow> T \<noteq> [] \<Longrightarrow> mk_request E st b = request_with E T b"
  by (simp add: mk_request_def request_with_def)

lemma ensure_well_behaved:
  assumes wb: "well_behaved E T" and T: "T \<noteq> []" and cold: "\<not> upstreamInitialized st"
    and acc: "accepted E (request_with E T Initialize)"
    and acc0: "accepted E (mk_request E st Initialize)"
  shows "\<exists>st1. ensureUpstreamInitialized E st = (Inr (), st1)
           \<and> requests st1 = requests st
                @ [mk_request E st Initialize, request_with E T NotifyInitialized]
           \<and> upstreamInitialized st1 \<and> upstreamSessionId st1 = JStr T"
proof -
  from good_handshake [OF well_behavedD(2) [OF wb] well_behavedD(3) [OF wb] T acc0]
  obtain d x st1 where f: "fetchMcp E Initialize st = (Inr d, st1)"
    and t: "trace st1 = trace st @ [(mk_request E st Initialize, x)]"
    and s: "upstreamSessionId st1 = JStr T"
    and d: "d \<noteq> JNull" "\<not> truthy (get_prop d ''error'')"
    by blast
  from well_behavedD(4) [OF wb, of "requests st1" st1]
  obtain res where a: "answer (upstream E (requests st1 @ [mk_request E st1 NotifyInitialized]))
      = Response res"
    by (auto split: reply.splits)
  let ?rq = "mk_request E st1 NotifyInitialized"
  let ?st2 = "st1\<lparr>trace := trace st1 @ [(?rq, upstream E (requests st1 @ [?rq]))],
                  upstreamInitialized := True\<rparr>"
  from s T acc have "accepted E ?rq"
    using accepted_rpc [of E T NotifyInitialized Initialize] by (simp add: mk_request_with)
  with a have n: "notify E st1 = (Inr (), ?st2)"
    by (simp add: notify_def fetch_def accepted_def Let_def requests_def)
  from f d n have "ensure_try E st = (Inr (), ?st2)"
    by (simp add: ensure_try_def member_not_null)
  with cold have "ensureUpstreamInitialized E st = (Inr (), ?st2)"
    by (simp add: ensureUpstreamInitialized_def)
  moreover from t s T have "requests ?st2 = requests st
                @ [mk_request E st Initialize, request_with E T NotifyInitialized]"
    by (simp add: requests_def mk_request_with)
  moreover from s have "upstreamInitialized ?st2 \<and> upstreamSessionId ?st2 = JStr T" by simp
  ultimately show ?thesis by blast
qed

lemma forward_after_ensure:
  assumes wb: "well_behaved E T" and T: "T \<noteq> []"
    and acc: "accepted E (request_with E T Initialize)"
    and e: "ensureUpstreamInitialized E st = (Inr (), st1)"
    and s: "upstreamSessionId st1 = JStr T"
  shows "\<exists>v st2. forwardToHttpMcp E m p rc st = (Inr v, st2)
           \<and> requests st2 = requests st1 @ [request_with E T (Call m p)]
           \<and> upstreamInitialized st2 = upstreamInitialized st1
           \<and> upstreamSessionId st2 = JStr T"
proof -
  from s T acc have "accepted E (mk_request E st1 (Call m p))"
    using accepted_rpc [of E T "Call m p" Initialize] by (simp add: mk_request_with)
  from good_fetchMcp [OF well_behavedD(1) [OF wb] s this]
  obtain d x where f: "fetchMcp E (Call m p) st1
        = (Inr d, st1\<lparr>trace := trace st1 @ [(mk_request E st1 (Call m p), x)]\<rparr>)"
    and d: "d \<noteq> JNull" "\<not> truthy (get_prop d ''error'')"
    by blast
  let ?st2 = "st1\<lparr>trace := trace st1 @ [(mk_request E st1 (Call m p), x)]\<rparr>"
  from e f d have "forwardToHttpMcp E m p rc st = (Inr (get_prop d ''result''), ?st2)"
    by (subst forwardToHttpMcp.simps) (auto simp: member_not_null split: option.splits)
  moreover from s T have "requests ?st2 = requests st1 @ [request_with E T (Call m p)]"
    by (simp add: requests_def mk_request_with)
  ultimately show ?thesis using s by auto
qed

lemma forward_ready:
  assumes "well_behaved E T" and "T \<noteq> []" and "accepted E (request_with E T Initialize)"
    and "upstreamInitialized st" and "upstreamSessionId st = JStr T"
  shows "\<exists>v st2. forwardToHttpMcp E m p rc st = (Inr v, st2)
           \<and> requests st2 = requests st @ [request_with E T (Call m p)]
           \<and> upstreamInitialized st2 \<and> upstreamSessionId st2 = JStr T"
  using forward_after_ensure [OF assms(1,2,3) ensure_ready [OF assms(4)] assms(5)] assms(4)
  by auto

lemma forward_cold:
  assumes "well_behaved E T" and "T \<noteq> []" and "\<not> upstreamInitialized st"
    and "accepted E (request_with E T Initialize)"
    and "accepted E (mk_request E st Initialize)"
  shows "\<exists>v st2. forwardToHttpMcp E m p rc st = (Inr v, st2)
           \<and> requests st2 = requests st
                @ [mk_request E st Initialize, request_with E T NotifyInitialized,
                   request_with E T (Call m p)]
           \<and> upstreamInitialized st2 \<and> upstreamSessionId st2 = JStr T"
proof -
  from ensure_well_behaved [OF assms] obtain st1 where
    e: "ensureUpstreamInitialized E st = (Inr (), st1)"
    and r: "requests st1 = requests st
                @ [mk_request E st Initialize, request_with E T NotifyInitialized]"
    and i: "upstreamInitialized st1" and s: "upstreamSessionId st1 = JStr T"
    by blast
  from forward_after_ensure [OF assms(1,2,4) e s, of m p rc] r i show ?thesis by auto
qed

lemma run_calls_ready:
  assumes "well_behaved E T" and "T \<noteq> []" and "accepted E (request_with E T Initialize)"
    and "upstreamInitialized st" and "upstreamSessionId st = JStr T"
  shows "requests (snd (run_calls E cs st))
           = requests st @ map (\<lambda>c. request_with E T (Call (fst c) (snd c))) cs
         \<and> list_all succeeded (fst (run_calls E cs st))"
  using assms(4,5)
proof (induction cs arbitrary: st)
  case Nil
  then show ?case by simp
next
  case (Cons c cs)
  obtain m p where c: "c = (m, p)" by (cases c)
  from forward_ready [OF assms(1,2,3) Cons.prems, of m p 0]
  obtain v st2 where f: "forwardToHttpMcp E m p 0 st = (Inr v, st2)"
    and r: "requests st2 = requests st @ [request_with E T (Call m p)]"
    and i: "upstreamInitialized st2" and s: "upstreamSessionId st2 = JStr T"
    by blast
  from Cons.IH [OF i s] f r c show ?case
    by (auto split: prod.splits)
qed

lemma reuse_requests:
  assumes "well_behaved E T" and "T \<noteq> []"
    and "upstreamInitialized st \<longrightarrow> upstreamSessionId st = JStr T"
    and "accepted E (request_with E T Initialize)"
    and "\<not> upstreamInitialized st \<longrightarrow> accepted E (mk_request E st Initialize)"
  shows "requests (snd (run_calls E cs st))
           = requests st
             @ (if upstreamInitialized st \<or> cs = [] then []
                else [mk_request E st Initialize, request_with E T NotifyInitialized])
             @ map (\<lambda>c. request_with E T (Call (fst c) (snd c))) cs
         \<and> list_all succeeded (fst (run_calls E cs st))"
proof (cases "upstreamInitialized st")
  case True
  with assms run_calls_ready [of E T st cs] show ?thesis by simp
next
  case cold: False
  show ?thesis
  proof (cases cs)
    case Nil
    then show ?thesis by simp
  next
    case (Cons c cs')
    obtain m p where c: "c = (m, p)" by (cases c)
    from cold assms(5) have "accepted E (mk_request E st Initialize)" by simp
    from forward_cold [OF assms(1,2) cold assms(4) this, of m p 0]
    obtain v st2 where f: "forwardToHttpMcp E m p 0 st = (Inr v, st2)"
      and r: "requests st2 = requests st
                @ [mk_request E st Initialize, request_with E T NotifyInitialized,
                   request_with E T (Call m p)]"
      and i: "upstreamInitialized st2" and s: "upstreamSessionId st2 = JStr T"
      by blast
    from run_calls_ready [OF assms(1,2,4) i s, of cs'] f r c Cons cold show ?thesis
      by (auto split: prod.splits)
  qed
qed


lemma rpc_request [simp]:
  "rpc (mk_request E st b) = b" "rpc (request_with E T b) = b"
  "mcp_session_id (request_with E T b) = Some (JStr T)"
  by (simp_all add: mk_request_def request_with_def)

lemma filter_calls [simp]:
  "filter (\<lambda>rq. rpc rq = Initialize) (map (\<lambda>c. request_with E T (Call (fst c) (snd c))) cs) = []"
  "filter (\<lambda>rq. is_call (rpc rq)) (map (\<lambda>c. request_with E T (Call (fst c) (snd c))) cs)
     = map (\<lambda>c. request_with E T (Call (fst c) (snd c))) cs"
  by (induction cs) simp_all

text \<open>
  C6 (as amended). Take an upstream that works and keeps the session \<open>T\<close>: it answers
  every handshake and every forwarded request with a success, as plain JSON or as an
  event stream, whose envelope has no error and names no other session, and the
  handshake's response names \<open>T\<close> in its header. Let \<open>T\<close>, the configured authorization and,
  when the session is not initialized, the session id the process holds be values that
  \<^verbatim>\<open>fetch\<close> takes as headers. Then \<open>N\<close> calls one after the other send exactly \<open>N\<close>
  forwarded requests, each with \<open>T\<close> in its \<^verbatim>\<open>Mcp-Session-Id\<close> header, and every call
  succeeds. From a session that is initialized with \<open>T\<close> no handshake is made. From the
  start of the process, where the session is not initialized whether or not a session id
  was loaded from the environment or the cache file, exactly one handshake is made,
  before the first forwarded request.
\<close>

theorem session_reuse:
  assumes "well_behaved E T" and "T \<noteq> []"
    and "upstreamInitialized st \<longrightarrow> upstreamSessionId st = JStr T"
    and "accepted E (request_with E T Initialize)"
    and "\<not> upstreamInitialized st \<longrightarrow> accepted E (mk_request E st Initialize)"
  shows "requests (snd (run_calls E cs st))
           = requests st
             @ (if upstreamInitialized st \<or> cs = [] then []
                else [mk_request E st Initialize, request_with E T NotifyInitialized])
             @ map (\<lambda>c. request_with E T (Call (fst c) (snd c))) cs
         \<and> list_all succeeded (fst (run_calls E cs st))
         \<and> handshakes (snd (run_calls E cs st))
             = handshakes st + (if upstreamInitialized st \<or> cs = [] then 0 else 1)
         \<and> sends (snd (run_calls E cs st)) = sends st + length cs"
proof -
  note r = reuse_requests [OF assms, of cs]
  then have "handshakes (snd (run_calls E cs st))
             = handshakes st + (if upstreamInitialized st \<or> cs = [] then 0 else 1)"
    and "sends (snd (run_calls E cs st)) = sends st + length cs"
    by (simp_all add: handshakes_def sends_def)
  with r show ?thesis by blast
qed

theorem session_reuse_witness:
  "well_behaved (env_of steady_upstream) ''T'' \<and> well_behaved (env_of streaming_upstream) ''T''
   \<and> ''T'' \<noteq> []
   \<and> requests (snd (run_calls (env_of steady_upstream)
                      [(''tools/list'', JObj []), (''tools/call'', JObj [])]
                      (startup (Some ''T'') None)))
      = [\<lparr>authorization = None, mcp_session_id = Some (JStr ''T''), rpc = Initialize\<rparr>,
         \<lparr>authorization = None, mcp_session_id = Some (JStr ''T''), rpc = NotifyInitialized\<rparr>,
         \<lparr>authorization = None, mcp_session_id = Some (JStr ''T''),
          rpc = Call ''tools/list'' (JObj [])\<rparr>,
         \<lparr>authorization = None, mcp_session_id = Some (JStr ''T''),
          rpc = Call ''tools/call'' (JObj [])\<rparr>]
   \<and> requests (snd (run_calls (env_of steady_upstream)
                      [(''tools/list'', JObj []), (''tools/call'', JObj [])] (ready ''T'')))
      = [\<lparr>authorization = None, mcp_session_id = Some (JStr ''T''),
          rpc = Call ''tools/list'' (JObj [])\<rparr>,
         \<lparr>authorization = None, mcp_session_id = Some (JStr ''T''),
          rpc = Call ''tools/call'' (JObj [])\<rparr>]
   \<and> requests (snd (run_calls (env_of streaming_upstream)
                      [(''tools/list'', JObj []), (''tools/call'', JObj [])]
                      (startup None None)))
      = [\<lparr>authorization = None, mcp_session_id = None, rpc = Initialize\<rparr>,
         \<lparr>authorization = None, mcp_session_id = Some (JStr ''T''), rpc = NotifyInitialized\<rparr>,
         \<lparr>authorization = None, mcp_session_id = Some (JStr ''T''),
          rpc = Call ''tools/list'' (JObj [])\<rparr>,
         \<lparr>authorization = None, mcp_session_id = Some (JStr ''T''),
          rpc = Call ''tools/call'' (JObj [])\<rparr>]
   \<and> list_all succeeded (fst (run_calls (env_of streaming_upstream)
                      [(''tools/list'', JObj []), (''tools/call'', JObj [])]
                      (startup None None)))"
proof -
  let ?E = "env_of steady_upstream"
  let ?S = "env_of streaming_upstream"
  let ?cs = "[(''tools/list'', JObj []), (''tools/call'', JObj [])]"
  have wb: "well_behaved ?E ''T''"
    by (simp add: well_behaved_def good_exchange_def envelope_def is_event_stream_def
          body_session_def ok_def model_defs example_defs steady_upstream_def split: rpc.splits)
  have ws: "well_behaved ?S ''T''"
    by (simp add: well_behaved_def good_exchange_def envelope_def is_event_stream_def
          complete_lines_def sse_answer_def body_session_def ok_def model_defs example_defs
          streaming_upstream_def split: rpc.splits)
  have T: "''T'' \<noteq> []" by simp
  have a: "upstreamInitialized (startup (Some ''T'') None)
             \<longrightarrow> upstreamSessionId (startup (Some ''T'') None) = JStr ''T''"
    and b: "upstreamInitialized (ready ''T'') \<longrightarrow> upstreamSessionId (ready ''T'') = JStr ''T''"
    and c: "upstreamInitialized (startup None None)
             \<longrightarrow> upstreamSessionId (startup None None) = JStr ''T''"
    by (simp_all add: startup_def ready_def)
  have h: "accepted ?E (request_with ?E ''T'' Initialize)"
    "accepted ?S (request_with ?S ''T'' Initialize)"
    by (simp_all add: accepted_def refusal_def request_with_def example_defs)
  have h0: "\<not> upstreamInitialized (startup (Some ''T'') None)
             \<longrightarrow> accepted ?E (mk_request ?E (startup (Some ''T'') None) Initialize)"
    "\<not> upstreamInitialized (ready ''T'')
             \<longrightarrow> accepted ?E (mk_request ?E (ready ''T'') Initialize)"
    "\<not> upstreamInitialized (startup None None)
             \<longrightarrow> accepted ?S (mk_request ?S (startup None None) Initialize)"
    by (simp_all add: accepted_def refusal_def mk_request_def startup_def ready_def example_defs)
  from session_reuse [OF wb T a h(1) h0(1), of ?cs] session_reuse [OF wb T b h(1) h0(2), of ?cs]
    session_reuse [OF ws T c h(2) h0(3), of ?cs] wb ws
  show ?thesis
    by (simp add: requests_def startup_def ready_def mk_request_def request_with_def env_of_def)
qed

text \<open>
  C6 as the specification states it, with no handshake for a preloaded session id, does not hold: with the id
  \<open>T\<close> taken from \<^verbatim>\<open>MCP_SESSION_ID\<close> the first call makes the handshake all the same.
\<close>

theorem preloaded_counterexample:
  "upstreamSessionId (startup (Some ''T'') None) = JStr ''T''
   \<and> rpcs (snd (run_calls (env_of steady_upstream) [(''tools/list'', JObj [])]
                   (startup (Some ''T'') None)))
      = [Initialize, NotifyInitialized, Call ''tools/list'' (JObj [])]
   \<and> handshakes (snd (run_calls (env_of steady_upstream) [(''tools/list'', JObj [])]
                         (startup (Some ''T'') None))) = 1"
  by (simp add: forwardToHttpMcp.simps model_defs example_defs steady_upstream_def count_defs)
section \<open>C7: the session id of the response header\<close>

lemma capture_header_session:
  assumes "hdr_session res = Some t" and "t \<noteq> []"
  shows "upstreamSessionId (capture_header E res st) = JStr t"
    and "cache_writable E \<Longrightarrow> upstreamSessionId st \<noteq> JStr t
         \<Longrightarrow> cache_file (capture_header E res st) = Some t"
  using assms
  by (auto simp: capture_header_def saveSessionToCache_def cache_writable_def Let_def
        dest: strict_eq_imp_eq)

lemma strict_eq_JStr [simp]: "strict_eq (JStr a) v = (v = JStr a)"
  by (cases v) auto

lemma after_body_session:
  "upstreamSessionId (after_body E r st)
     = (case r of
          Inl e \<Rightarrow> upstreamSessionId st
        | Inr d \<Rightarrow> (case body_session d of
                      None \<Rightarrow> upstreamSessionId st
                    | Some v \<Rightarrow> if truthy (Some v) then v else upstreamSessionId st))"
  by (auto simp: after_body_def save_session_id split: sum.splits option.splits)

lemma fetch_session [simp]:
  "fetch E rq st = (r, st1) \<Longrightarrow> upstreamSessionId st1 = upstreamSessionId st"
  by (auto dest!: fetch_trace)

text \<open>
  C7 (as amended). For every response that \<^verbatim>\<open>fetchMcp\<close> receives, whatever its status and
  whatever the format of its body, a non-empty session id in the header is made the
  active session (and written to the cache file when it is new) before the body is read.
  It is still the active session when \<^verbatim>\<open>fetchMcp\<close> throws, and when \<^verbatim>\<open>fetchMcp\<close> returns a
  document without a truthy \<^verbatim>\<open>result.sessionId\<close>, an error envelope for one; a truthy
  \<^verbatim>\<open>result.sessionId\<close> of the returned document replaces it.
\<close>

theorem header_capture:
  assumes "fetch E (mk_request E st b) st = (Inr res, st1)"
    and "hdr_session res = Some t" and "t \<noteq> []"
  shows "fetchMcp E b st = read_response E res (capture_header E res st1)
         \<and> upstreamSessionId (capture_header E res st1) = JStr t
         \<and> (cache_writable E \<and> upstreamSessionId st \<noteq> JStr t
              \<longrightarrow> cache_file (capture_header E res st1) = Some t)
         \<and> (case fetchMcp E b st of
               (Inl e, st') \<Rightarrow> upstreamSessionId st' = JStr t
             | (Inr d, st') \<Rightarrow>
                 if truthy (body_session d) then Some (upstreamSessionId st') = body_session d
                 else upstreamSessionId st' = JStr t)"
proof -
  let ?st2 = "capture_header E res st1"
  have f: "fetchMcp E b st = read_response E res ?st2"
    using assms(1) by (simp add: fetchMcp_def)
  have s: "upstreamSessionId ?st2 = JStr t"
    using assms(2,3) by (rule capture_header_session)
  have c: "cache_writable E \<and> upstreamSessionId st \<noteq> JStr t \<longrightarrow> cache_file ?st2 = Some t"
    using capture_header_session(2) [OF assms(2,3), of E st1] fetch_session [OF assms(1)]
    by simp
  obtain r st' where r: "read_response E res ?st2 = (r, st')"
    by (cases "read_response E res ?st2")
  from read_response_state [OF r] have "st' = after_body E r ?st2" .
  with s have "case r of
        Inl e \<Rightarrow> upstreamSessionId st' = JStr t
      | Inr d \<Rightarrow> if truthy (body_session d) then Some (upstreamSessionId st') = body_session d
                  else upstreamSessionId st' = JStr t"
    by (auto simp: after_body_session split: sum.splits option.splits)
  with f r s c show ?thesis by (auto split: sum.splits)
qed

theorem header_capture_witness:
  "fst (fetchMcp (env_of rotating_upstream) (Call ''tools/call'' (JObj [])) (ready ''T''))
     = Inr (JObj [(''error'', JObj [(''code'', JNum (- 32601)),
                                    (''message'', JStr ''Method not found''),
                                    (''data'', JStr ''initialize'')])])
   \<and> upstreamSessionId (snd (fetchMcp (env_of rotating_upstream) (Call ''tools/call'' (JObj []))
                               (ready ''T''))) = JStr ''A''"
proof -
  let ?E = "env_of rotating_upstream"
  let ?b = "Call ''tools/call'' (JObj [])"
  let ?res = "\<lparr>status_code = 200, hdr_session = Some ''A'',
                hdr_content_type = Some ''application/json'', chunks = [doc_not_found]\<rparr>"
  have f: "fetch ?E (mk_request ?E (ready ''T'') ?b) (ready ''T'')
             = (Inr ?res, snd (fetch ?E (mk_request ?E (ready ''T'') ?b) (ready ''T'')))"
    by (simp add: fetch_def refusal_def mk_request_def ready_def Let_def example_defs
          rotating_upstream_def)
  have h: "hdr_session ?res = Some ''A''" and t: "''A'' \<noteq> []" by simp_all
  have v: "fst (fetchMcp ?E ?b (ready ''T''))
     = Inr (JObj [(''error'', JObj [(''code'', JNum (- 32601)),
                                    (''message'', JStr ''Method not found''),
                                    (''data'', JStr ''initialize'')])])"
    by (simp add: model_defs example_defs rotating_upstream_def ready_def)
  from header_capture [OF f h t] v show ?thesis
    by (auto simp: body_session_def split: prod.splits sum.splits)
qed

text \<open>
  C7 as the specification states it, for every response of the upstream, does not hold, for two reasons: the response
  to the notification is not read at all, so the session \<open>N\<close> its header names is not
  taken up; and where the header names \<open>A\<close> and the body \<open>B\<close>, the active session after
  the exchange is \<open>B\<close>.
\<close>

theorem header_capture_counterexample:
  "map snd (trace (snd (ensureUpstreamInitialized (env_of late_session_upstream)
                          (startup None None))))
     = [plain 200 None doc_result, plain 202 (Some ''N'') []]
   \<and> upstreamSessionId (snd (ensureUpstreamInitialized (env_of late_session_upstream)
                               (startup None None))) = JNull
   \<and> upstreamSessionId (snd (fetchMcp (env_of two_sessions_upstream)
                               (Call ''tools/list'' (JObj [])) (ready ''T''))) = JStr ''B''"
  by (simp add: model_defs example_defs late_session_upstream_def two_sessions_upstream_def
        ready_def)

section \<open>C8: malformed JSON\<close>

lemma malformed_plain_body:
  assumes "fetch E (mk_request E st b) st = (Inr res, st1)" and "ok res"
    and "\<not> includes_str (case hdr_content_type res of None \<Rightarrow> [] | Some c \<Rightarrow> c) ''text/event-stream''"
    and "JSON_parse E (concat (chunks res)) = Inl msg"
  shows "fetchMcp E b st = (Inl (mkError msg), capture_header E res st1)"
  using assms by (simp add: fetchMcp_def read_response_def read_json_def)

lemma malformed_error_body:
  assumes "fetch E (mk_request E st b) st = (Inr res, st1)" and "\<not> ok res"
    and "JSON_parse E (concat (chunks res)) = Inl msg"
  shows "fetchMcp E b st
     = (Inl \<lparr>message = ''Upstream error '' @ digits (status_code res) @ '': '' @ concat (chunks res),
             status = Some (status_code res), code = None, data = None\<rparr>,
        capture_header E res st1)"
  using assms by (simp add: fetchMcp_def read_response_def http_error_def)

lemma malformed_record_skipped:
  assumes "startsWith l ''data: ''" and "JSON_parse E (trim (drop 6 l)) = Inl msg"
  shows "sse_lines E (l # ls) st = sse_lines E ls st"
  using assms by (simp add: sse_record_def)

text \<open>
  C8 (as amended). Malformed JSON in the body of a successful plain response makes
  \<^verbatim>\<open>fetchMcp\<close> throw the parser's error. In a response with a failure status it is not
  reported: the thrown error carries the status and the raw text. In an event stream a
  record with the marker whose payload does not parse is passed over without a trace,
  and reading goes on with the next record.
\<close>

theorem malformed_json:
  "(fetch E (mk_request E st b) st = (Inr res, st1) \<and> ok res
      \<and> \<not> includes_str (case hdr_content_type res of None \<Rightarrow> [] | Some c \<Rightarrow> c) ''text/event-stream''
      \<and> JSON_parse E (concat (chunks res)) = Inl msg
    \<longrightarrow> fetchMcp E b st = (Inl (mkError msg), capture_header E res st1))
   \<and> (fetch E (mk_request E st b) st = (Inr res, st1) \<and> \<not> ok res
      \<and> JSON_parse E (concat (chunks res)) = Inl msg
    \<longrightarrow> fetchMcp E b st
          = (Inl \<lparr>message = ''Upstream error '' @ digits (status_code res) @ '': ''
                            @ concat (chunks res),
                  status = Some (status_code res), code = None, data = None\<rparr>,
             capture_header E res st1))
   \<and> (startsWith l ''data: '' \<and> JSON_parse E (trim (drop 6 l)) = Inl msg'
    \<longrightarrow> sse_lines E (l # ls) st' = sse_lines E ls st')"
  using malformed_plain_body malformed_error_body malformed_record_skipped by blast

theorem malformed_json_witness:
  "fst (fetchMcp (env_of garbled_plain_upstream) (Call ''tools/list'' (JObj [])) (ready ''T''))
     = Inl (mkError ''Unexpected token'')
   \<and> fst (fetchMcp (env_of failing_upstream) (Call ''tools/list'' (JObj [])) (ready ''T''))
     = Inl \<lparr>message = ''Upstream error 500: Internal Server Error'', status = Some 500,
            code = None, data = None\<rparr>
   \<and> sse_lines (env_of garbled_stream_upstream) [''data: {broken'', ''data: '' @ doc_result]
        (ready ''T'')
     = sse_lines (env_of garbled_stream_upstream) [''data: '' @ doc_result] (ready ''T'')"
proof (intro conjI)
  let ?E = "env_of garbled_plain_upstream"
  let ?b = "Call ''tools/list'' (JObj [])"
  let ?res = "\<lparr>status_code = 200, hdr_session = None,
                hdr_content_type = Some ''application/json'', chunks = [''<html>'']\<rparr>"
  let ?st1 = "snd (fetch ?E (mk_request ?E (ready ''T'') ?b) (ready ''T''))"
  have f: "fetch ?E (mk_request ?E (ready ''T'') ?b) (ready ''T'') = (Inr ?res, ?st1)"
    by (simp add: fetch_def refusal_def mk_request_def ready_def Let_def example_defs
          garbled_plain_upstream_def)
  have o: "ok ?res" by (simp add: ok_def)
  have c: "\<not> includes_str (case hdr_content_type ?res of None \<Rightarrow> [] | Some c \<Rightarrow> c)
               ''text/event-stream''" by simp
  have p: "JSON_parse ?E (concat (chunks ?res)) = Inl ''Unexpected token''"
    by (simp add: example_defs)
  from malformed_json [THEN conjunct1, rule_format, of ?E "ready ''T''" ?b ?res ?st1
      "''Unexpected token''"] f o c p
  show "fst (fetchMcp ?E ?b (ready ''T'')) = Inl (mkError ''Unexpected token'')" by simp
next
  let ?E = "env_of failing_upstream"
  let ?b = "Call ''tools/list'' (JObj [])"
  let ?res = "\<lparr>status_code = 500, hdr_session = None,
                hdr_content_type = Some ''application/json'',
                chunks = [''Internal Server Error'']\<rparr>"
  let ?st1 = "snd (fetch ?E (mk_request ?E (ready ''T'') ?b) (ready ''T''))"
  have f: "fetch ?E (mk_request ?E (ready ''T'') ?b) (ready ''T'') = (Inr ?res, ?st1)"
    by (simp add: fetch_def refusal_def mk_request_def ready_def Let_def example_defs
          failing_upstream_def)
  have o: "\<not> ok ?res" by (simp add: ok_def)
  have p: "JSON_parse ?E (concat (chunks ?res)) = Inl ''Unexpected token''"
    by (simp add: example_defs)
  from malformed_json [THEN conjunct2, THEN conjunct1, rule_format, of ?E "ready ''T''" ?b ?res
      ?st1 "''Unexpected token''"] f o p
  show "fst (fetchMcp ?E ?b (ready ''T''))
     = Inl \<lparr>message = ''Upstream error 500: Internal Server Error'', status = Some 500,
            code = None, data = None\<rparr>"
    by (simp add: digits.simps)
next
  let ?E = "env_of garbled_stream_upstream"
  have s: "startsWith ''data: {broken'' ''data: ''" by simp
  have p: "JSON_parse ?E (trim (drop 6 ''data: {broken'')) = Inl ''Unexpected token''"
    by (simp add: example_defs trim_def is_space_def)
  from malformed_json [THEN conjunct2, THEN conjunct2, rule_format,
      of "''data: {broken''" ?E "''Unexpected token''" "[''data: '' @ doc_result]" "ready ''T''"] s p
  show "sse_lines ?E [''data: {broken'', ''data: '' @ doc_result] (ready ''T'')
     = sse_lines ?E [''data: '' @ doc_result] (ready ''T'')"
    by simp
qed

text \<open>
  C8 as the specification states it does not hold: the first record of this stream is malformed, and
  \<^verbatim>\<open>fetchMcp\<close> returns the second as if the first had not been there.
\<close>

theorem malformed_record_counterexample:
  "parse_examples ''{broken'' = Inl ''Unexpected token''
   \<and> fetchMcp (env_of garbled_stream_upstream) (Call ''tools/list'' (JObj [])) (ready ''T'')
     = (Inr (JObj [(''result'', JObj [])]),
        (ready ''T'')\<lparr>trace := [(\<lparr>authorization = None, mcp_session_id = Some (JStr ''T''),
                                    rpc = Call ''tools/list'' (JObj [])\<rparr>,
                                  garbled_stream_upstream [])]\<rparr>)"
  by (simp add: model_defs example_defs garbled_stream_upstream_def ready_def)

section \<open>C10: the session id of the response body\<close>

lemma body_session_read:
  assumes "fetch E (mk_request E st b) st = (Inr res, st1)"
    and "ok res" and "envelope E res = Some d"
    and "body_session d = Some v" and "truthy (Some v)"
  shows "fetchMcp E b st = (Inr d, saveSessionToCache E (Some v) (capture_header E res st1))"
  using assms read_response_envelope [of res E d "capture_header E res st1"]
  by (simp add: fetchMcp_def after_body_def)

text \<open>
  C10 (as amended). For every successful response, plain JSON or event stream in
  whatever chunks, whose envelope has a truthy \<^verbatim>\<open>result.sessionId\<close>, \<^verbatim>\<open>fetchMcp\<close> returns
  the envelope and that value is the active session id afterwards. When the value is not
  identical to the session id in force as the body is read (the one of the response
  header, if there was one), it is handed to \<^verbatim>\<open>fs.writeFile\<close> and the cache file holds
  what that call leaves there: the value itself when it is a string and the file can be
  written. When it is identical, the cache file is left as it is.
\<close>

theorem body_session_adopted:
  assumes "fetch E (mk_request E st b) st = (Inr res, st1)"
    and "ok res" and "envelope E res = Some d"
    and "body_session d = Some v" and "truthy (Some v)"
  shows "fetchMcp E b st = (Inr d, saveSessionToCache E (Some v) (capture_header E res st1))
         \<and> upstreamSessionId (snd (fetchMcp E b st)) = v
         \<and> cache_file (snd (fetchMcp E b st))
             = (if strict_eq v (upstreamSessionId (capture_header E res st1))
                then cache_file (capture_header E res st1)
                else fs_writeFile E v (cache_file (capture_header E res st1)))
         \<and> (v = JStr s \<and> cache_writable E \<and> upstreamSessionId (capture_header E res st1) \<noteq> v
              \<longrightarrow> cache_file (snd (fetchMcp E b st)) = Some s)"
proof -
  let ?st2 = "capture_header E res st1"
  have f: "fetchMcp E b st = (Inr d, saveSessionToCache E (Some v) ?st2)"
    using assms by (rule body_session_read)
  have i: "upstreamSessionId (saveSessionToCache E (Some v) ?st2) = v"
    using assms(5) by (rule save_session_id)
  have c: "cache_file (saveSessionToCache E (Some v) ?st2)
             = (if strict_eq v (upstreamSessionId ?st2) then cache_file ?st2
                else fs_writeFile E v (cache_file ?st2))"
    using assms(5) by (simp add: saveSessionToCache_def)
  have p: "v = JStr s \<and> cache_writable E \<and> upstreamSessionId ?st2 \<noteq> v
             \<longrightarrow> cache_file (saveSessionToCache E (Some v) ?st2) = Some s"
  proof (intro impI, elim conjE)
    assume "v = JStr s" and w: "cache_writable E" and "upstreamSessionId ?st2 \<noteq> v"
    then have "\<not> strict_eq v (upstreamSessionId ?st2)"
      by (cases "upstreamSessionId ?st2") auto
    with c \<open>v = JStr s\<close> w show "cache_file (saveSessionToCache E (Some v) ?st2) = Some s"
      by (simp add: cache_writable_def)
  qed
  from f have s: "snd (fetchMcp E b st) = saveSessionToCache E (Some v) ?st2" by simp
  show ?thesis unfolding s using f i c p by blast
qed

theorem body_session_adopted_witness:
  "cache_writable (env_of body_session_upstream)
   \<and> fst (fetchMcp (env_of body_session_upstream) (Call ''tools/list'' (JObj [])) (ready ''T''))
     = Inr (JObj [(''result'', JObj [(''sessionId'', JStr ''B'')])])
   \<and> upstreamSessionId (snd (fetchMcp (env_of body_session_upstream)
                               (Call ''tools/list'' (JObj [])) (ready ''T''))) = JStr ''B''
   \<and> cache_file (snd (fetchMcp (env_of body_session_upstream)
                         (Call ''tools/list'' (JObj [])) (ready ''T''))) = Some ''B''
   \<and> fst (fetchMcp (env_of session_stream_upstream) (Call ''tools/list'' (JObj [])) (ready ''T''))
     = Inr (JObj [(''result'', JObj [(''sessionId'', JStr ''B'')])])
   \<and> upstreamSessionId (snd (fetchMcp (env_of session_stream_upstream)
                               (Call ''tools/list'' (JObj [])) (ready ''T''))) = JStr ''B''
   \<and> cache_file (snd (fetchMcp (env_of session_stream_upstream)
                         (Call ''tools/list'' (JObj [])) (ready ''T''))) = Some ''B''"
proof -
  let ?b = "Call ''tools/list'' (JObj [])"
  let ?rq = "\<lparr>authorization = None, mcp_session_id = Some (JStr ''T''), rpc = ?b\<rparr>"
  let ?d = "JObj [(''result'', JObj [(''sessionId'', JStr ''B'')])]"
  have v: "body_session ?d = Some (JStr ''B'')" and t: "truthy (Some (JStr ''B''))"
    by (simp_all add: body_session_def)
  have plain_case:
    "fst (fetchMcp (env_of body_session_upstream) ?b (ready ''T'')) = Inr ?d
     \<and> upstreamSessionId (snd (fetchMcp (env_of body_session_upstream) ?b (ready ''T'')))
         = JStr ''B''
     \<and> cache_file (snd (fetchMcp (env_of body_session_upstream) ?b (ready ''T''))) = Some ''B''"
  proof -
    let ?E = "env_of body_session_upstream"
    let ?res = "\<lparr>status_code = 200, hdr_session = None,
                  hdr_content_type = Some ''application/json'', chunks = [doc_session_B]\<rparr>"
    let ?st1 = "(ready ''T'')\<lparr>trace := [(?rq, body_session_upstream [])]\<rparr>"
    have f: "fetch ?E (mk_request ?E (ready ''T'') ?b) (ready ''T'') = (Inr ?res, ?st1)"
      by (simp add: fetch_def refusal_def mk_request_def ready_def Let_def example_defs
            body_session_upstream_def)
    have k: "ok ?res" by (simp add: ok_def)
    have e: "envelope ?E ?res = Some ?d"
      by (simp add: envelope_def is_event_stream_def example_defs)
    have w: "cache_writable ?E" by (simp add: cache_writable_def env_of_def)
    have n: "upstreamSessionId (capture_header ?E ?res ?st1) \<noteq> JStr ''B''"
      by (simp add: capture_header_def ready_def)
    note r = body_session_adopted [OF f k e v t, of "''B''"]
    from r have "fst (fetchMcp ?E ?b (ready ''T'')) = Inr ?d" by simp
    moreover from r have "upstreamSessionId (snd (fetchMcp ?E ?b (ready ''T''))) = JStr ''B''"
      by blast
    moreover from r w n have "cache_file (snd (fetchMcp ?E ?b (ready ''T''))) = Some ''B''"
      by blast
    ultimately show ?thesis by blast
  qed
  have stream_case:
    "fst (fetchMcp (env_of session_stream_upstream) ?b (ready ''T'')) = Inr ?d
     \<and> upstreamSessionId (snd (fetchMcp (env_of session_stream_upstream) ?b (ready ''T'')))
         = JStr ''B''
     \<and> cache_file (snd (fetchMcp (env_of session_stream_upstream) ?b (ready ''T''))) = Some ''B''"
  proof -
    let ?E = "env_of session_stream_upstream"
    let ?res = "\<lparr>status_code = 200, hdr_session = None,
                  hdr_content_type = Some ''text/event-stream'',
                  chunks = [take 20 (''data: '' @ doc_session_B),
                            drop 20 (''data: '' @ doc_session_B)
                              @ [CHR ''\<newline>'', CHR ''\<newline>'']]\<rparr>"
    let ?st1 = "(ready ''T'')\<lparr>trace := [(?rq, session_stream_upstream [])]\<rparr>"
    have f: "fetch ?E (mk_request ?E (ready ''T'') ?b) (ready ''T'') = (Inr ?res, ?st1)"
      by (simp add: fetch_def refusal_def mk_request_def ready_def Let_def example_defs
            session_stream_upstream_def)
    have k: "ok ?res" by (simp add: ok_def)
    have e: "envelope ?E ?res = Some ?d"
      by (simp add: envelope_def is_event_stream_def complete_lines_def sse_answer_def
            model_defs example_defs)
    have w: "cache_writable ?E" by (simp add: cache_writable_def env_of_def)
    have n: "upstreamSessionId (capture_header ?E ?res ?st1) \<noteq> JStr ''B''"
      by (simp add: capture_header_def ready_def)
    note r = body_session_adopted [OF f k e v t, of "''B''"]
    from r have "fst (fetchMcp ?E ?b (ready ''T'')) = Inr ?d" by simp
    moreover from r have "upstreamSessionId (snd (fetchMcp ?E ?b (ready ''T''))) = JStr ''B''"
      by blast
    moreover from r w n have "cache_file (snd (fetchMcp ?E ?b (ready ''T''))) = Some ''B''"
      by blast
    ultimately show ?thesis by blast
  qed
  have "cache_writable (env_of body_session_upstream)"
    by (simp add: cache_writable_def env_of_def)
  with plain_case stream_case show ?thesis by blast
qed

text \<open>
  C10 as the specification states it, with every truthy value persisted, does not hold:
  a successful response whose \<^verbatim>\<open>result.sessionId\<close> is the number 5 makes 5 the active
  session id, while \<^verbatim>\<open>fs.writeFile\<close> refuses a number and the cache file keeps the
  session \<open>T\<close>.
\<close>

theorem numeric_session_counterexample:
  "parse_examples doc_session_5 = Inr (JObj [(''result'', JObj [(''sessionId'', JNum 5)])])
   \<and> truthy (Some (JNum 5))
   \<and> fst (fetchMcp (env_of numeric_session_upstream) (Call ''tools/list'' (JObj [])) (ready ''T''))
     = Inr (JObj [(''result'', JObj [(''sessionId'', JNum 5)])])
   \<and> upstreamSessionId (snd (fetchMcp (env_of numeric_session_upstream)
                               (Call ''tools/list'' (JObj [])) (ready ''T''))) = JNum 5
   \<and> cache_file (snd (fetchMcp (env_of numeric_session_upstream)
                        (Call ''tools/list'' (JObj [])) (ready ''T''))) = Some ''T''
   \<and> cache_file (ready ''T'') = Some ''T''"
  by (simp add: model_defs example_defs numeric_session_upstream_def ready_def)
section \<open>C9: calls that overlap\<close>

lemma fetchMcp_received:
  "fetchMcp E b st = (case fetch E (mk_request E st b) st of (out, st1) \<Rightarrow> received E out st1)"
  by (simp add: fetchMcp_def received_def split: prod.splits sum.splits)

lemma run_catch_conf: "run_conf E (catch_conf E err st) = ensure_catch E err st"
  by (simp add: catch_conf_def ensure_catch_def fetchMcp_received notify_def Let_def
        split: prod.splits sum.splits)

text \<open>A call that runs alone is the function of the sequential model.\<close>

lemma run_ensure_conf: "run_conf E (ensure_conf E st) = ensureUpstreamInitialized E st"
  by (simp add: ensure_conf_def ensureUpstreamInitialized_def ensure_try_def fetchMcp_received
        notify_def run_catch_conf split: prod.splits sum.splits)

lemma in_flight_append [simp]: "in_flight (cs @ ds) = in_flight cs @ in_flight ds"
  by (induction cs rule: in_flight.induct) simp_all

lemma start_call_cold:
  assumes "\<not> upstreamInitialized (shared P)"
  shows "shared (start_call E P) = shared P"
    and "in_flight (calls (start_call E P))
           = in_flight (calls P) @ [mk_request E (shared P) Initialize]"
  using assms by (simp_all add: start_call_def ensure_conf_def Let_def)

lemma start_call_ready:
  assumes "upstreamInitialized (shared P)"
  shows "shared (start_call E P) = shared P"
    and "in_flight (calls (start_call E P)) = in_flight (calls P)"
  using assms by (simp_all add: start_call_def ensure_conf_def Let_def)

lemma start_calls_cold:
  assumes "\<not> upstreamInitialized (shared P)"
  shows "shared ((start_call E ^^ n) P) = shared P
         \<and> in_flight (calls ((start_call E ^^ n) P))
             = in_flight (calls P) @ replicate n (mk_request E (shared P) Initialize)"
proof (induction n)
  case 0
  then show ?case by simp
next
  case (Suc n)
  with assms have "\<not> upstreamInitialized (shared ((start_call E ^^ n) P))" by simp
  from start_call_cold [OF this, where E = E] Suc show ?case
    by (simp add: replicate_append_same)
qed

text \<open>
  C9 (as amended). Initialization is guarded by the flag \<^verbatim>\<open>upstreamInitialized\<close> alone,
  which a handshake sets when it is over. A call that starts with the flag set sends
  nothing for the session. Calls that start while the flag is unset, so also while the
  handshake of another call is on its way, do not wait for it: each sends its own
  \<^verbatim>\<open>initialize\<close> request, and \<open>n\<close> such calls have \<open>n\<close> handshakes on their way at once.
\<close>

theorem unguarded_initialization:
  "(upstreamInitialized (shared P)
      \<longrightarrow> in_flight (calls (start_call E P)) = in_flight (calls P))
   \<and> (\<not> upstreamInitialized (shared P)
      \<longrightarrow> in_flight (calls ((start_call E ^^ n) P))
            = in_flight (calls P) @ replicate n (mk_request E (shared P) Initialize)
          \<and> handshakes_in_flight ((start_call E ^^ n) P) = handshakes_in_flight P + n)"
proof (intro conjI impI)
  assume "upstreamInitialized (shared P)"
  then show "in_flight (calls (start_call E P)) = in_flight (calls P)"
    by (rule start_call_ready)
next
  assume c: "\<not> upstreamInitialized (shared P)"
  from start_calls_cold [OF c, where E = E and n = n]
  show "in_flight (calls ((start_call E ^^ n) P))
            = in_flight (calls P) @ replicate n (mk_request E (shared P) Initialize)"
    by simp
  then show "handshakes_in_flight ((start_call E ^^ n) P) = handshakes_in_flight P + n"
    by (simp add: handshakes_in_flight_def)
qed

theorem unguarded_initialization_witness:
  "in_flight (calls (start_call (env_of plain_upstream)
                       \<lparr>shared = ready ''T'', calls = []\<rparr>)) = []
   \<and> handshakes_in_flight ((start_call (env_of plain_upstream) ^^ 3) fresh_pool) = 3"
proof -
  have r: "upstreamInitialized (shared \<lparr>shared = ready ''T'', calls = []\<rparr>)"
    by (simp add: ready_def)
  have c: "\<not> upstreamInitialized (shared fresh_pool)"
    by (simp add: fresh_pool_def startup_def)
  have z: "handshakes_in_flight fresh_pool = 0"
    by (simp add: handshakes_in_flight_def fresh_pool_def)
  from unguarded_initialization [where P = "\<lparr>shared = ready ''T'', calls = []\<rparr>"
        and E = "env_of plain_upstream"]
    unguarded_initialization [where P = fresh_pool and E = "env_of plain_upstream" and n = 3]
    r c z
  show ?thesis by simp
qed

text \<open>
  C9 as the specification states it does not hold: two calls started one after the other, before any response
  has arrived, both find the flag unset and both send \<^verbatim>\<open>initialize\<close>; when all
  responses are in, two handshakes have been made.
\<close>

theorem concurrent_handshakes_counterexample:
  "map rpc (in_flight (calls (run_events (env_of plain_upstream) [Start, Start] fresh_pool)))
     = [Initialize, Initialize]
   \<and> rpcs (shared (run_events (env_of plain_upstream)
                     [Start, Start, Deliver 0, Deliver 1, Deliver 0, Deliver 1] fresh_pool))
     = [Initialize, Initialize, NotifyInitialized, NotifyInitialized]"
  by (simp add: start_call_def deliver_def ensure_conf_def catch_conf_def received_def
        fresh_pool_def plain_upstream_def model_defs example_defs count_defs)


end
